theory Spec2Isabelle
  imports Main "HOL-Library.Char_ord" "HOL-Library.List_Lexorder"
begin

section \<open>Plugin installer: file names (internal/plugin/installer.go)\<close>

text \<open>
  Go strings are byte sequences; they are modelled as \<open>string\<close> (a list of
  characters). The helpers below are the functions of Go's \<open>strings\<close> package that
  the installer calls, restricted to the arguments it passes.
\<close>

subsection \<open>The string helpers the installer calls\<close>

text \<open>\<open>strings.HasSuffix(s, suffix)\<close>.\<close>

definition HasSuffix :: "string \<Rightarrow> string \<Rightarrow> bool" where
  "HasSuffix s suf \<longleftrightarrow>
     length suf \<le> length s \<and> drop (length s - length suf) s = suf"

text \<open>\<open>strings.TrimSuffix(s, suffix)\<close>: \<open>s\<close> without the suffix when it ends with it,
  \<open>s\<close> itself otherwise.\<close>

definition TrimSuffix :: "string \<Rightarrow> string \<Rightarrow> string" where
  "TrimSuffix s suf = (if HasSuffix s suf then take (length s - length suf) s else s)"

text \<open>\<open>strings.Split(s, sep)\<close> for a separator of one character: the pieces between the
  separators, in order. \<open>split_from\<close> scans the input with the piece read so far; the
  result is never empty (\<open>Split("", "_")\<close> is one empty piece).\<close>

fun split_from :: "string \<Rightarrow> char \<Rightarrow> string \<Rightarrow> string list" where
  "split_from [] sep piece = [piece]"
| "split_from (c # cs) sep piece =
     (if c = sep then piece # split_from cs sep [] else split_from cs sep (piece @ [c]))"

definition Split :: "string \<Rightarrow> char \<Rightarrow> string list" where
  "Split s sep = split_from s sep []"

text \<open>\<open>strings.Join(elems, sep)\<close>.\<close>

fun Join :: "string list \<Rightarrow> string \<Rightarrow> string" where
  "Join [] sep = []"
| "Join [p] sep = p"
| "Join (p # q # ps) sep = p @ sep @ Join (q # ps) sep"

subsection \<open>The version pattern\<close>

text \<open>
  \<open>parsePluginInfo\<close> tests every part with
  \<open>regexp.MatchString(`^v?[0-9]+\.[0-9]+\.[0-9]+`, part)\<close>. The pattern is anchored at
  the start only, so it asks for a prefix of the part. \<open>match_digits\<close> consumes
  \<open>[0-9]+\<close> and \<open>match_dot\<close> consumes \<open>\.\<close>; each returns the rest of the input, or
  \<open>None\<close> when the input does not start that way. A maximal run of digits is taken:
  what follows it in the pattern is never a digit.
\<close>

definition is_digit :: "char \<Rightarrow> bool" where
  "is_digit c \<longleftrightarrow> c \<in> set ''0123456789''"

definition match_digits :: "string \<Rightarrow> string option" where
  "match_digits s = (if takeWhile is_digit s = [] then None else Some (dropWhile is_digit s))"

fun match_dot :: "string \<Rightarrow> string option" where
  "match_dot [] = None"
| "match_dot (c # cs) = (if c = CHR ''.'' then Some cs else None)"

fun match_opt_v :: "string \<Rightarrow> string" where
  "match_opt_v [] = []"
| "match_opt_v (c # cs) = (if c = CHR ''v'' then cs else c # cs)"

definition version_regex_match :: "string \<Rightarrow> bool" where
  "version_regex_match part =
     (case match_digits (match_opt_v part) of
        None \<Rightarrow> False
      | Some r1 \<Rightarrow>
          (case match_dot r1 of
             None \<Rightarrow> False
           | Some r2 \<Rightarrow>
               (case match_digits r2 of
                  None \<Rightarrow> False
                | Some r3 \<Rightarrow>
                    (case match_dot r3 of
                       None \<Rightarrow> False
                     | Some r4 \<Rightarrow> match_digits r4 \<noteq> None))))"

text \<open>The language of the pattern, written out: an optional \<open>v\<close>, then three non-empty
  runs of digits separated by dots, then anything.\<close>

definition version_regex_language :: "string \<Rightarrow> bool" where
  "version_regex_language part \<longleftrightarrow>
     (\<exists>v d1 d2 d3 rest.
        part = v @ d1 @ ''.'' @ d2 @ ''.'' @ d3 @ rest \<and>
        (v = [] \<or> v = ''v'') \<and>
        d1 \<noteq> [] \<and> list_all is_digit d1 \<and>
        d2 \<noteq> [] \<and> list_all is_digit d2 \<and>
        d3 \<noteq> [] \<and> list_all is_digit d3)"

subsection \<open>parsePluginInfo\<close>

record PluginInfo =
  ServiceName :: string
  Platform :: string
  Version :: string
  Filename :: string

text \<open>
  The errors of the installer. \<open>PanicSliceBounds\<close> is Go's run-time panic "slice bounds
  out of range", which unwinds through every caller in this package; the other
  constructors are returned \<open>error\<close> values.
\<close>

datatype error =
    ErrBadFormat
  | ErrNoVersion
  | PanicSliceBounds
  | ErrInvalidURL
  | ErrNoFilename
  | ErrNotVkp
  | ErrNotExist
  | ErrRemoveFailed
  | ErrEvictionFailed
  | ErrDownloadFailed
  | ErrBadPattern

text \<open>
  The loop \<open>for i := len(parts) - 1; i >= 0; i--\<close> that looks for the version part.
  \<open>find_version_index parts k\<close> has the indices below \<open>k\<close> still to visit, so the
  loop is \<open>find_version_index parts (length parts)\<close>; \<open>None\<close> is \<open>versionIndex == -1\<close>.
\<close>

fun find_version_index :: "string list \<Rightarrow> nat \<Rightarrow> nat option" where
  "find_version_index parts 0 = None"
| "find_version_index parts (Suc i) =
     (if version_regex_match (parts ! i) then Some i else find_version_index parts i)"

text \<open>
  \<open>parts[1:versionIndex]\<close> panics when \<open>versionIndex\<close> is 0 (the low bound 1 exceeds the
  high bound); for \<open>versionIndex \<ge> 1\<close> it is the parts from index 1 up to, not
  including, \<open>versionIndex\<close>.
\<close>

definition parsePluginInfo :: "string \<Rightarrow> error + PluginInfo" where
  "parsePluginInfo filename =
     (let name = TrimSuffix filename ''.vkp'';
          parts = Split name CHR ''_''
      in if length parts < 3 then Inl ErrBadFormat
         else (case find_version_index parts (length parts) of
                 None \<Rightarrow> Inl ErrNoVersion
               | Some versionIndex \<Rightarrow>
                   if versionIndex < 1 then Inl PanicSliceBounds
                   else Inr \<lparr> ServiceName = parts ! 0,
                              Platform = Join (take (versionIndex - 1) (drop 1 parts)) ''_'',
                              Version = Join (drop versionIndex parts) ''_'',
                              Filename = filename \<rparr>))"

section \<open>Paths (Go's path/filepath, slash-separated)\<close>

text \<open>\<open>filepath.Base\<close>: the last element of the path, after removing trailing slashes;
  \<open>"."\<close> for the empty path and \<open>"/"\<close> for a path of slashes only.\<close>

definition Base :: "string \<Rightarrow> string" where
  "Base path =
     (if path = [] then ''.''
      else let stripped = rev (dropWhile (\<lambda>c. c = CHR ''/'') (rev path));
               element = rev (takeWhile (\<lambda>c. c \<noteq> CHR ''/'') (rev stripped))
           in if element = [] then ''/'' else element)"

text \<open>\<open>filepath.Ext\<close>: the suffix of the last element of the path that starts at its last
  dot, empty when the element has no dot.\<close>

definition Ext :: "string \<Rightarrow> string" where
  "Ext path =
     (let element = takeWhile (\<lambda>c. c \<noteq> CHR ''/'') (rev path)
      in if CHR ''.'' \<in> set element
         then CHR ''.'' # rev (takeWhile (\<lambda>c. c \<noteq> CHR ''.'') element)
         else [])"

text \<open>
  \<open>filepath.Clean\<close> reads the elements of the path from left to right: an empty element
  and \<open>.\<close> are dropped; \<open>..\<close> removes the element before it, is dropped at the root of
  a rooted path, and is kept at the start of a path that is not rooted. The result is
  the remaining elements joined by single slashes, after the root if the path has one,
  and \<open>"."\<close> when nothing remains of a path that is not rooted.
\<close>

definition is_rooted :: "string \<Rightarrow> bool" where
  "is_rooted path = (case path of [] \<Rightarrow> False | c # cs \<Rightarrow> c = CHR ''/'')"

definition clean_step :: "bool \<Rightarrow> string list \<Rightarrow> string \<Rightarrow> string list" where
  "clean_step rooted kept element =
     (if element = [] \<or> element = ''.'' then kept
      else if element = ''..''
      then (if kept \<noteq> [] \<and> last kept \<noteq> ''..'' then butlast kept
            else if rooted then kept
            else kept @ [''..''])
      else kept @ [element])"

definition clean_elements :: "string \<Rightarrow> string list" where
  "clean_elements path = foldl (clean_step (is_rooted path)) [] (Split path CHR ''/'')"

definition Clean :: "string \<Rightarrow> string" where
  "Clean path =
     (if is_rooted path then CHR ''/'' # Join (clean_elements path) ''/''
      else if clean_elements path = [] then ''.''
      else Join (clean_elements path) ''/'')"

text \<open>\<open>filepath.Join\<close>: the elements from the first non-empty one on, joined by slashes and
  cleaned; the empty path when every element is empty.\<close>

definition filepath_Join :: "string list \<Rightarrow> string" where
  "filepath_Join elem =
     (let rest = dropWhile (\<lambda>e. e = []) elem
      in if rest = [] then [] else Clean (Join rest ''/''))"

text \<open>The name of a directory entry: not empty, without a slash, and neither \<open>.\<close> nor
  \<open>..\<close>.\<close>

definition plain_name :: "string \<Rightarrow> bool" where
  "plain_name name \<longleftrightarrow>
     name \<noteq> [] \<and> CHR ''/'' \<notin> set name \<and> name \<noteq> ''.'' \<and> name \<noteq> ''..''"

section \<open>Plugin installer: installing and removing (internal/plugin/installer.go)\<close>

subsection \<open>The install directory and its environment\<close>

text \<open>
  The install directory \<open>vpksDir\<close> is modelled by the list of the names of its entries, in
  the order \<open>filepath.Glob\<close> reports them (sorted by name). The contents of the files play
  no part in the installer's decisions and are left out.

  The answers of the operating system and of the network are inputs of the model:
  \<^item> \<open>stat_fails\<close> tells on which names \<open>os.Stat\<close> fails with an error other than
    "does not exist" (the code then goes on to \<open>os.Remove\<close>);
  \<^item> \<open>remove_fails\<close> tells on which entries \<open>os.Remove\<close> fails;
  \<^item> \<open>download\<close> tells how far \<open>downloadFile\<close> gets;
  \<^item> \<open>glob_reports\<close> tells which entries \<open>filepath.Glob\<close> reports. \<open>Glob\<close> ignores I/O
    errors: when the directory cannot be opened or read it reports no entry, or only
    some, and no error;
  \<^item> \<open>glob_bad_pattern\<close> tells whether \<open>Glob\<close> rejects the pattern \<open>vpksDir/*.vkp\<close> as
    malformed, its only error (the directory \<open>plugins/vpks\<close> of cmd.go gives a
    well-formed pattern);
  \<^item> \<open>outside\<close> tells what \<open>os.Stat\<close> and \<open>os.Remove\<close> answer on a path that is not
    the place of an entry of the directory.
\<close>

datatype download_outcome =
    RequestFailed   \<comment> \<open>the request fails, or the status is not 200: nothing is written\<close>
  | CreateFailed    \<comment> \<open>\<open>os.Create\<close> fails: nothing is written\<close>
  | CopyFailed      \<comment> \<open>\<open>io.Copy\<close> fails after the file was created\<close>
  | Downloaded

datatype outside_outcome =
    Missing         \<comment> \<open>\<open>os.Stat\<close> reports that the path does not exist\<close>
  | CannotRemove    \<comment> \<open>the path exists and \<open>os.Remove\<close> fails\<close>
  | Removed         \<comment> \<open>the path exists and \<open>os.Remove\<close> removes it\<close>

record install_env =
  stat_fails :: "string \<Rightarrow> bool"
  remove_fails :: "string \<Rightarrow> bool"
  download :: download_outcome
  glob_reports :: "string \<Rightarrow> bool"
  glob_bad_pattern :: bool
  outside :: "string \<Rightarrow> outside_outcome"

text \<open>The fields of Go's \<open>url.URL\<close> that the installer reads. The model takes the result
  of \<open>url.Parse\<close> as its input: \<open>None\<close> when \<open>url.Parse\<close> returns an error.\<close>

record URL =
  Scheme :: string
  Host :: string
  Path :: string

subsection \<open>validateURL, extractFilename, validatePluginFilename\<close>

definition validateURL :: "URL option \<Rightarrow> error option" where
  "validateURL pluginURL =
     (case pluginURL of
        None \<Rightarrow> Some ErrInvalidURL
      | Some parsedURL \<Rightarrow>
          if Scheme parsedURL \<noteq> ''http'' \<and> Scheme parsedURL \<noteq> ''https'' then Some ErrInvalidURL
          else if Host parsedURL = [] then Some ErrInvalidURL
          else None)"

definition extractFilename :: "URL option \<Rightarrow> error + string" where
  "extractFilename pluginURL =
     (case pluginURL of
        None \<Rightarrow> Inl ErrNoFilename
      | Some parsedURL \<Rightarrow>
          (let filename = Base (Path parsedURL)
           in if filename = ''.'' \<or> filename = ''/'' then Inl ErrNoFilename else Inr filename))"

text \<open>\<open>validatePluginFilename\<close> rejects a name that does not end in \<open>.vkp\<close>. Its second
  test, against the recommended pattern of the whole name, only logs a warning and
  returns \<open>nil\<close> either way, so it does not appear in the result.\<close>

definition validatePluginFilename :: "string \<Rightarrow> error option" where
  "validatePluginFilename filename =
     (if \<not> HasSuffix filename ''.vkp'' then Some ErrNotVkp else None)"

subsection \<open>ListInstalledPlugins, findPluginsByService, RemovePlugin\<close>

text \<open>\<open>filepath.Glob(vpksDir/*.vkp)\<close>, then the base name of every match: the entries
  that \<open>Glob\<close> reports and whose name ends in \<open>.vkp\<close>.\<close>

definition ListInstalledPlugins :: "install_env \<Rightarrow> string list \<Rightarrow> error + string list" where
  "ListInstalledPlugins env files =
     (if glob_bad_pattern env then Inl ErrBadPattern
      else Inr (filter (\<lambda>f. HasSuffix f ''.vkp'' \<and> glob_reports env f) files))"

text \<open>The loop of \<open>findPluginsByService\<close>: a name that does not parse is skipped with a
  warning; a panic of \<open>parsePluginInfo\<close> ends the call.\<close>

fun collect_service :: "string \<Rightarrow> string list \<Rightarrow> error + PluginInfo list" where
  "collect_service serviceName [] = Inr []"
| "collect_service serviceName (filename # plugins) =
     (case parsePluginInfo filename of
        Inl e \<Rightarrow>
          if e = PanicSliceBounds then Inl PanicSliceBounds
          else collect_service serviceName plugins
      | Inr pluginInfo \<Rightarrow>
          (case collect_service serviceName plugins of
             Inl e \<Rightarrow> Inl e
           | Inr servicePlugins \<Rightarrow>
               Inr (if ServiceName pluginInfo = serviceName
                    then pluginInfo # servicePlugins else servicePlugins)))"

definition findPluginsByService :: "install_env \<Rightarrow> string list \<Rightarrow> string \<Rightarrow> error + PluginInfo list" where
  "findPluginsByService env files serviceName =
     (case ListInstalledPlugins env files of
        Inl e \<Rightarrow> Inl e
      | Inr plugins \<Rightarrow> collect_service serviceName plugins)"

text \<open>
  \<open>RemovePlugin\<close> works on the path \<open>filepath.Join(vpksDir, filename)\<close>. The path is the
  place of an entry of the directory when it is the directory joined with its own last
  element, a plain name; the entry is then there or not according to the directory
  (\<open>os.Remove\<close> fails on an entry that is not there).
  Any other path (the directory itself, a path above it, beside it or deeper inside
  it) is answered by the environment, and removing it leaves the entries of the
  directory as they are. The result is the error (if any) and the directory after the
  call.
\<close>

definition entry_place :: "string \<Rightarrow> string \<Rightarrow> bool" where
  "entry_place vpksDir path \<longleftrightarrow>
     plain_name (Base path) \<and> filepath_Join [vpksDir, Base path] = path"

definition RemovePlugin ::
  "install_env \<Rightarrow> string \<Rightarrow> string \<Rightarrow> string list \<Rightarrow> error option \<times> string list" where
  "RemovePlugin env vpksDir filename files =
     (let path = filepath_Join [vpksDir, filename]
      in if entry_place vpksDir path
         then (if Base path \<notin> set files
               then (if stat_fails env (Base path) then (Some ErrRemoveFailed, files)
                     else (Some ErrNotExist, files))
               else if remove_fails env (Base path) then (Some ErrRemoveFailed, files)
               else (None, removeAll (Base path) files))
         else (case outside env path of
                 Missing \<Rightarrow> (Some ErrNotExist, files)
               | CannotRemove \<Rightarrow> (Some ErrRemoveFailed, files)
               | Removed \<Rightarrow> (None, files)))"

subsection \<open>downloadFile and InstallFromURL\<close>

text \<open>\<open>os.Create\<close> makes the entry when it is not there and truncates it when it is.\<close>

definition create_file :: "string \<Rightarrow> string list \<Rightarrow> string list" where
  "create_file filename files = (if filename \<in> set files then files else insort filename files)"

definition downloadFile :: "install_env \<Rightarrow> string \<Rightarrow> string list \<Rightarrow> error option \<times> string list" where
  "downloadFile env filename files =
     (case download env of
        RequestFailed \<Rightarrow> (Some ErrDownloadFailed, files)
      | CreateFailed \<Rightarrow> (Some ErrDownloadFailed, files)
      | CopyFailed \<Rightarrow> (Some ErrDownloadFailed, create_file filename files)
      | Downloaded \<Rightarrow> (None, create_file filename files))"

text \<open>The loop over \<open>existingPlugins\<close>: every plugin whose file name differs from the new
  one is removed; the first failing removal ends the install.\<close>

fun evict ::
  "install_env \<Rightarrow> string \<Rightarrow> string \<Rightarrow> PluginInfo list \<Rightarrow> string list \<Rightarrow> error option \<times> string list" where
  "evict env vpksDir filename [] files = (None, files)"
| "evict env vpksDir filename (existingPlugin # rest) files =
     (if Filename existingPlugin \<noteq> filename
      then (case RemovePlugin env vpksDir (Filename existingPlugin) files of
              (Some e, files') \<Rightarrow> (Some ErrEvictionFailed, files')
            | (None, files') \<Rightarrow> evict env vpksDir filename rest files')
      else evict env vpksDir filename rest files)"

text \<open>The end of \<open>InstallFromURL\<close>, from "build the local path" on. The file name has
  passed \<open>extractFilename\<close> and \<open>validatePluginFilename\<close>, so it is a plain name and
  the local path is the place of the entry of that name.\<close>

definition download_to :: "install_env \<Rightarrow> string \<Rightarrow> string \<Rightarrow> string list \<Rightarrow> (error + string) \<times> string list" where
  "download_to env vpksDir filename files =
     (case downloadFile env filename files of
        (Some e, files') \<Rightarrow> (Inl ErrDownloadFailed, files')
      | (None, files') \<Rightarrow> (Inr (filepath_Join [vpksDir, filename]), files'))"

text \<open>\<open>InstallFromURL\<close> returns the local path or the error, and the directory after the
  call. A new name that does not parse is installed with a warning and without looking
  for older versions, and so is a new name whose older versions cannot be listed.\<close>

definition InstallFromURL ::
  "install_env \<Rightarrow> string \<Rightarrow> URL option \<Rightarrow> string list \<Rightarrow> (error + string) \<times> string list" where
  "InstallFromURL env vpksDir pluginURL files =
     (case validateURL pluginURL of
        Some e \<Rightarrow> (Inl ErrInvalidURL, files)
      | None \<Rightarrow>
     (case extractFilename pluginURL of
        Inl e \<Rightarrow> (Inl ErrNoFilename, files)
      | Inr filename \<Rightarrow>
     (case validatePluginFilename filename of
        Some e \<Rightarrow> (Inl ErrNotVkp, files)
      | None \<Rightarrow>
     (case parsePluginInfo filename of
        Inl e \<Rightarrow>
          if e = PanicSliceBounds then (Inl PanicSliceBounds, files)
          else download_to env vpksDir filename files
      | Inr newPluginInfo \<Rightarrow>
          (case findPluginsByService env files (ServiceName newPluginInfo) of
             Inl e \<Rightarrow>
               if e = PanicSliceBounds then (Inl PanicSliceBounds, files)
               else download_to env vpksDir filename files
           | Inr existingPlugins \<Rightarrow>
               (case evict env vpksDir filename existingPlugins files of
                  (Some e, files') \<Rightarrow> (Inl e, files')
                | (None, files') \<Rightarrow> download_to env vpksDir filename files'))))))"

text \<open>A sequence of calls, each with its own environment, on the same directory.\<close>

fun run_installs :: "string \<Rightarrow> (install_env \<times> URL option) list \<Rightarrow> string list \<Rightarrow> string list" where
  "run_installs vpksDir [] files = files"
| "run_installs vpksDir ((env, pluginURL) # calls) files =
     run_installs vpksDir calls (snd (InstallFromURL env vpksDir pluginURL files))"

text \<open>The \<open>.vkp\<close> entries of the directory whose name parses to the service \<open>s\<close>.\<close>

definition has_service :: "string \<Rightarrow> string \<Rightarrow> bool" where
  "has_service s filename =
     (case parsePluginInfo filename of Inl e \<Rightarrow> False | Inr info \<Rightarrow> ServiceName info = s)"

definition service_files :: "string \<Rightarrow> string list \<Rightarrow> string list" where
  "service_files s files = filter (\<lambda>f. HasSuffix f ''.vkp'' \<and> has_service s f) files"

text \<open>
  The listing of a call is complete on a directory when \<open>Glob\<close> accepts the pattern and
  reports every \<open>.vkp\<close> entry; the listings of a sequence of calls are complete when
  the listing of each call is complete on the directory the call finds.
\<close>

definition listing_complete :: "install_env \<Rightarrow> string list \<Rightarrow> bool" where
  "listing_complete env files \<longleftrightarrow>
     \<not> glob_bad_pattern env \<and> list_all (\<lambda>f. HasSuffix f ''.vkp'' \<longrightarrow> glob_reports env f) files"

fun listings_complete :: "string \<Rightarrow> (install_env \<times> URL option) list \<Rightarrow> string list \<Rightarrow> bool" where
  "listings_complete vpksDir [] files = True"
| "listings_complete vpksDir ((env, pluginURL) # calls) files =
     (listing_complete env files \<and>
      listings_complete vpksDir calls (snd (InstallFromURL env vpksDir pluginURL files)))"

subsection \<open>The management endpoint DELETE /remove (api, PluginHandler.RemovePlugin)\<close>



subsection \<open>Example inputs\<close>

text \<open>An environment in which nothing fails and every entry is listed, the same
  environment with a directory that cannot be read, and the URL \<open>https://host<path>\<close>.\<close>

definition env_ok :: install_env where
  "env_ok = \<lparr> stat_fails = (\<lambda>f. False), remove_fails = (\<lambda>f. False), download = Downloaded,
              glob_reports = (\<lambda>f. True), glob_bad_pattern = False,
              outside = (\<lambda>path. Missing) \<rparr>"

definition env_unreadable :: install_env where
  "env_unreadable = env_ok \<lparr> glob_reports := (\<lambda>f. False) \<rparr>"

definition url_of :: "string \<Rightarrow> URL option" where
  "url_of path = Some \<lparr> Scheme = ''https'', Host = ''host'', Path = path \<rparr>"

section \<open>Sliding-window rate limiter (internal/middleware/ratelimit.go)\<close>

subsection \<open>The in-memory backend\<close>


definition wrap64 :: "int \<Rightarrow> int" where
  "wrap64 x = (x + 9223372036854775808) mod 18446744073709551616 - 9223372036854775808"

record MemoryRateLimiter =
  limit :: int
  window :: int
  requests :: "string \<rightharpoonup> int list"

definition NewMemoryRateLimiter :: "int \<Rightarrow> int \<Rightarrow> MemoryRateLimiter" where
  "NewMemoryRateLimiter l w = \<lparr> limit = l, window = w, requests = Map.empty \<rparr>"

text \<open>\<open>m.requests[key]\<close> read as a value: the nil slice when the key is absent.\<close>

definition timestamps :: "MemoryRateLimiter \<Rightarrow> string \<Rightarrow> int list" where
  "timestamps m key = (case requests m key of None \<Rightarrow> [] | Some reqs \<Rightarrow> reqs)"

text \<open>The first block of \<open>AllowN\<close> (and of \<open>GetRemaining\<close>): when the key exists, keep the
  requests that are after \<open>windowStart\<close>.\<close>

definition drop_expired :: "MemoryRateLimiter \<Rightarrow> int \<Rightarrow> string \<Rightarrow> MemoryRateLimiter" where
  "drop_expired m now key =
     (let windowStart = now - window m
      in case requests m key of
           None \<Rightarrow> m
         | Some reqs \<Rightarrow>
             m \<lparr> requests := (requests m)(key \<mapsto> filter (\<lambda>req. windowStart < req) reqs) \<rparr>)"

text \<open>The test \<open>currentCount + n > m.limit\<close>, the sum being a Go \<open>int\<close>.\<close>

definition over_limit :: "MemoryRateLimiter \<Rightarrow> string \<Rightarrow> int \<Rightarrow> bool" where
  "over_limit m key n \<longleftrightarrow> wrap64 (int (length (timestamps m key)) + n) > limit m"

text \<open>The loop \<open>for i := 0; i < n; i++ { m.requests[key] = append(m.requests[key], now) }\<close>,
  with the number of iterations still to run. It does not run at all for \<open>n \<le> 0\<close>.\<close>

fun append_now :: "nat \<Rightarrow> int \<Rightarrow> string \<Rightarrow> MemoryRateLimiter \<Rightarrow> MemoryRateLimiter" where
  "append_now 0 now key m = m"
| "append_now (Suc i) now key m =
     append_now i now key (m \<lparr> requests := (requests m)(key \<mapsto> timestamps m key @ [now]) \<rparr>)"

definition AllowN :: "MemoryRateLimiter \<Rightarrow> int \<Rightarrow> string \<Rightarrow> int \<Rightarrow> bool \<times> MemoryRateLimiter" where
  "AllowN m now key n =
     (let m1 = drop_expired m now key
      in if over_limit m1 key n then (False, m1)
         else (True, append_now (nat n) now key m1))"

definition Allow :: "MemoryRateLimiter \<Rightarrow> int \<Rightarrow> string \<Rightarrow> bool \<times> MemoryRateLimiter" where
  "Allow m now key = AllowN m now key 1"










subsection \<open>The remote backend\<close>
























subsection \<open>The claimed behaviour of AllowN, for comparison\<close>


subsection \<open>The invariants of the two backends\<close>



subsection \<open>Two calls without a lock\<close>

text \<open>
  \<open>AllowN\<close> is three blocks run one after the other: dropping the expired requests, the
  test against the limit, and the loop that appends. No block takes a lock, so when two
  goroutines call \<open>AllowN\<close> on the same limiter nothing orders the blocks of one call
  with those of the other. \<open>two_calls_interleaved\<close> is the schedule in which both calls
  run their first two blocks before either runs its third; the result is the two
  decisions and the limiter afterwards.
\<close>

definition two_calls_interleaved ::
  "MemoryRateLimiter \<Rightarrow> int \<Rightarrow> string \<Rightarrow> int \<Rightarrow> (bool \<times> bool) \<times> MemoryRateLimiter" where
  "two_calls_interleaved m now key n =
     (let m1 = drop_expired m now key;
          m2 = drop_expired m1 now key;
          allowed1 = \<not> over_limit m2 key n;
          allowed2 = \<not> over_limit m2 key n;
          m3 = (if allowed1 then append_now (nat n) now key m2 else m2);
          m4 = (if allowed2 then append_now (nat n) now key m3 else m3)
      in ((allowed1, allowed2), m4))"

subsection \<open>Example limiters\<close>




section \<open>Plugin packages, the packager and the loader (internal/plugin)\<close>

subsection \<open>Metadata, files and archives\<close>

text \<open>\<open>PluginMetadata\<close> of interface.go. The field \<open>Version\<close> is called \<open>PluginVersion\<close>
  here (the name \<open>Version\<close> is taken by \<open>PluginInfo\<close>); \<open>ConfigSchema\<close>, a free-form
  mapping, is kept as a list of keys with their values as text.\<close>

record PluginMetadata =
  Name :: string
  PluginVersion :: string
  Description :: string
  Author :: string
  License :: string
  Dependencies :: "string list"
  APIVersion :: string
  MinGatewayVersion :: string
  Standalone :: bool
  ConfigSchema :: "(string \<times> string) list"

text \<open>
  \<open>encoding/json\<close> is not part of the repository: its encoder and decoder for
  \<open>PluginMetadata\<close> are arguments of the model. \<open>Unmarshal\<close> returns \<open>None\<close> for a text it
  rejects.
\<close>

record json_codec =
  MarshalIndent :: "PluginMetadata \<Rightarrow> string"
  Unmarshal :: "string \<Rightarrow> PluginMetadata option"

text \<open>
  A file holds bytes or, when it is a gzip-compressed tar archive, the members of the
  archive in order: the encoding by \<open>archive/tar\<close> and \<open>compress/gzip\<close> is not
  modelled. A member has a name, is a regular file or not, and has the content of the
  file it was made from. The file system maps a path to the content of the file there;
  directories are implicit, and no operation on it fails for another reason than a
  file that is not there.
\<close>

datatype typeflag = TypeReg | TypeOther

datatype file_content =
    Bytes string
  | Archive "(string \<times> typeflag \<times> file_content) list"

type_synonym filesystem = "string \<rightharpoonup> file_content"

datatype loader_error =
    ErrFileNotFound
  | ErrUnsupportedFormat
  | ErrExtract
  | ErrReadMetadata
  | ErrChmod
  | ErrOpenGoPlugin
  | ErrNotLoaded
  | ErrStartFailed
  | ErrKillFailed
  | ErrOpenFile

subsection \<open>The packager (packager.go)\<close>

record PackageConfig =
  ModulePath :: string
  OutputPath :: string
  Metadata :: "PluginMetadata option"
  IncludeFiles :: "string list"

definition default_metadata :: PluginMetadata where
  "default_metadata =
     \<lparr> Name = ''unknown'', PluginVersion = ''1.0.0'', Description = ''VKP Plugin'',
       Author = [], License = [], Dependencies = [], APIVersion = [],
       MinGatewayVersion = [], Standalone = True, ConfigSchema = [] \<rparr>"

text \<open>\<open>createMetadataFile\<close>: the default metadata for \<open>nil\<close>, \<open>v1\<close> for an empty
  \<open>APIVersion\<close>, and the encoded metadata written to \<open>filePath\<close>.\<close>

definition createMetadataFile ::
  "json_codec \<Rightarrow> PluginMetadata option \<Rightarrow> string \<Rightarrow> filesystem \<Rightarrow> filesystem" where
  "createMetadataFile codec md filePath fs =
     (let metadata = (case md of None \<Rightarrow> default_metadata | Some m \<Rightarrow> m);
          metadata = (if APIVersion metadata = [] then metadata \<lparr> APIVersion := ''v1'' \<rparr>
                      else metadata)
      in fs(filePath \<mapsto> Bytes (MarshalIndent codec metadata)))"

text \<open>\<open>addFileToTar\<close>: the file at \<open>filePath\<close> becomes the next member, under the name
  \<open>tarPath\<close>. The header leaves the type flag unset, which \<open>archive/tar\<close> writes and reads
  as a regular file.\<close>

definition addFileToTar ::
  "filesystem \<Rightarrow> (string \<times> typeflag \<times> file_content) list \<Rightarrow> string \<Rightarrow> string \<Rightarrow>
     loader_error + (string \<times> typeflag \<times> file_content) list" where
  "addFileToTar fs members filePath tarPath =
     (case fs filePath of
        None \<Rightarrow> Inl ErrOpenFile
      | Some content \<Rightarrow> Inr (members @ [(tarPath, TypeReg, content)]))"

text \<open>The loop over \<open>config.IncludeFiles\<close>: a file that exists is added under its base
  name; a failure to add it is only logged.\<close>

fun add_include_files ::
  "filesystem \<Rightarrow> (string \<times> typeflag \<times> file_content) list \<Rightarrow> string list \<Rightarrow>
     (string \<times> typeflag \<times> file_content) list" where
  "add_include_files fs members [] = members"
| "add_include_files fs members (filePath # rest) =
     (if fs filePath \<noteq> None
      then (case addFileToTar fs members filePath (Base filePath) of
              Inl e \<Rightarrow> add_include_files fs members rest
            | Inr members' \<Rightarrow> add_include_files fs members' rest)
      else add_include_files fs members rest)"

text \<open>
  \<open>createVKPPackage\<close>: the metadata file is written to \<open>tempDir/metadata.json\<close>, the
  output file is created, and the binary, the metadata file and the extra files become
  the members \<open>plugin\<close>, \<open>metadata.json\<close> and their base names. The deferred \<open>Close\<close> calls
  finish the archive with the members written so far, also on an error.
\<close>

definition createVKPPackage ::
  "json_codec \<Rightarrow> PackageConfig \<Rightarrow> string \<Rightarrow> string \<Rightarrow> filesystem \<Rightarrow> loader_error option \<times> filesystem" where
  "createVKPPackage codec config binaryPath tempDir fs =
     (let metadataPath = filepath_Join [tempDir, ''metadata.json''];
          fs1 = createMetadataFile codec (Metadata config) metadataPath fs;
          fs2 = fs1(OutputPath config \<mapsto> Archive [])
      in case addFileToTar fs2 [] binaryPath ''plugin'' of
           Inl e \<Rightarrow> (Some e, fs2)
         | Inr members1 \<Rightarrow>
             (case addFileToTar fs2 members1 metadataPath ''metadata.json'' of
                Inl e \<Rightarrow> (Some e, fs2(OutputPath config \<mapsto> Archive members1))
              | Inr members2 \<Rightarrow>
                  (None, fs2(OutputPath config \<mapsto>
                     Archive (add_include_files fs2 members2 (IncludeFiles config))))))"

subsection \<open>The supervised plugin (loader.go, VKPPlugin)\<close>

text \<open>The fields of \<open>exec.Cmd\<close> the plugin uses (\<open>Path\<close> and \<open>Args\<close> are called \<open>CmdPath\<close>
  and \<open>CmdArgs\<close> here): \<open>exec.CommandContext(ctx, name, arg...)\<close> sets \<open>Path\<close> to the name
  and \<open>Args\<close> to the name followed by the arguments; \<open>Process\<close> is \<open>nil\<close> until the
  command has been started, and then holds the process (here its pid).\<close>

record Cmd =
  CmdPath :: string
  CmdArgs :: "string list"
  Process :: "nat option"

record VKPPlugin =
  execPath :: string
  metadata :: "PluginMetadata option"
  cmd :: "Cmd option"

text \<open>
  What the operating system answers: \<open>start\<close> gives the pid when it starts the binary
  and \<open>None\<close> when \<open>cmd.Start\<close> fails; \<open>kill_fails\<close> and \<open>signal_fails\<close> tell on which
  processes \<open>Process.Kill\<close> and \<open>Process.Signal(0)\<close> fail; \<open>removeall_fails\<close> on which
  directories \<open>os.RemoveAll\<close> fails; \<open>open_so\<close> gives the name of the plugin that the
  \<open>NewPlugin\<close> symbol of a Go plugin file makes, \<open>None\<close> when the file does not open or
  has no such symbol.
\<close>

record os_env =
  start :: "string \<Rightarrow> nat option"
  kill_fails :: "nat \<Rightarrow> bool"
  signal_fails :: "nat \<Rightarrow> bool"
  removeall_fails :: "string \<Rightarrow> bool"
  open_so :: "string \<Rightarrow> string option"

definition GetName :: "VKPPlugin \<Rightarrow> string" where
  "GetName p = (case metadata p of Some md \<Rightarrow> Name md | None \<Rightarrow> Base (execPath p))"

definition stop :: "os_env \<Rightarrow> VKPPlugin \<Rightarrow> loader_error option" where
  "stop env p =
     (case cmd p of
        None \<Rightarrow> None
      | Some c \<Rightarrow>
          (case Process c of
             None \<Rightarrow> None
           | Some pid \<Rightarrow> if kill_fails env pid then Some ErrKillFailed else None))"

text \<open>\<open>Initialize\<close> stores the command in \<open>p.cmd\<close> and then starts it.\<close>

definition Initialize :: "os_env \<Rightarrow> VKPPlugin \<Rightarrow> loader_error option \<times> VKPPlugin" where
  "Initialize env p =
     (let c = \<lparr> CmdPath = execPath p, CmdArgs = [execPath p, ''--mode=gateway''],
                Process = None \<rparr>;
          p1 = p \<lparr> cmd := Some c \<rparr>
      in case start env (execPath p) of
           None \<Rightarrow> (Some ErrStartFailed, p1)
         | Some pid \<Rightarrow> (None, p1 \<lparr> cmd := Some (c \<lparr> Process := Some pid \<rparr>) \<rparr>))"

datatype health = Stopped | Unhealthy | Healthy nat

definition Health :: "os_env \<Rightarrow> VKPPlugin \<Rightarrow> health" where
  "Health env p =
     (case cmd p of
        None \<Rightarrow> Stopped
      | Some c \<Rightarrow>
          (case Process c of
             None \<Rightarrow> Stopped
           | Some pid \<Rightarrow> if signal_fails env pid then Unhealthy else Healthy pid))"

definition Shutdown :: "os_env \<Rightarrow> VKPPlugin \<Rightarrow> loader_error option" where
  "Shutdown env p = stop env p"

text \<open>The process handle of the plugin, if it has one.\<close>

definition process_handle :: "VKPPlugin \<Rightarrow> nat option" where
  "process_handle p = (case cmd p of None \<Rightarrow> None | Some c \<Rightarrow> Process c)"

subsection \<open>The loader (loader.go, VKPLoader)\<close>

text \<open>
  The values of the interface \<open>Plugin\<close> that the loader makes: a \<open>VKPPlugin\<close>, or the
  instance a Go plugin file makes, of which only the name is known. The loader's map
  holds pointers to the plugins; the map of the model holds the values they point to.
  Of \<open>LoadedPlugin\<close>, the field \<open>Path\<close> is called \<open>PluginPath\<close> here and the handle of a
  Go plugin is left out.
\<close>

datatype plugin = VKP VKPPlugin | GoPluginInstance string

fun plugin_name :: "plugin \<Rightarrow> string" where
  "plugin_name (VKP p) = GetName p"
| "plugin_name (GoPluginInstance name) = name"

record LoadedPlugin =
  Plugin :: plugin
  PluginPath :: string
  ExtractDir :: string

record VKPLoader =
  loadedPlugins :: "string \<rightharpoonup> LoadedPlugin"
  pluginDir :: string

definition NewVKPLoader :: "string \<Rightarrow> VKPLoader" where
  "NewVKPLoader dir = \<lparr> loadedPlugins = Map.empty, pluginDir = dir \<rparr>"

text \<open>
  \<open>extractVKP\<close>: every regular member is written at \<open>filepath.Join(extractDir, name)\<close>,
  which need not be below the extraction directory; the other members are skipped.
  \<open>os.Create\<close> fails when the target is the extraction directory itself (a member
  named \<open>.\<close>, for example), and the extraction ends there, the members written before
  staying in place. Directories are implicit in the file system of the model, so the
  other ways in which \<open>os.MkdirAll\<close> and \<open>os.Create\<close> fail are not part of it.
\<close>

fun extract_members ::
  "string \<Rightarrow> (string \<times> typeflag \<times> file_content) list \<Rightarrow> filesystem \<Rightarrow> loader_error option \<times> filesystem" where
  "extract_members extractDir [] fs = (None, fs)"
| "extract_members extractDir ((name, flag, content) # members) fs =
     (let target = filepath_Join [extractDir, name]
      in if flag = TypeReg
         then (if target = extractDir then (Some ErrExtract, fs)
               else extract_members extractDir members (fs(target \<mapsto> content)))
         else extract_members extractDir members fs)"

definition extractVKP :: "string \<Rightarrow> string \<Rightarrow> filesystem \<Rightarrow> loader_error option \<times> filesystem" where
  "extractVKP vkpPath extractDir fs =
     (case fs vkpPath of
        None \<Rightarrow> (Some ErrExtract, fs)
      | Some (Bytes b) \<Rightarrow> (Some ErrExtract, fs)
      | Some (Archive members) \<Rightarrow> extract_members extractDir members fs)"

definition readPluginMetadata :: "json_codec \<Rightarrow> string \<Rightarrow> filesystem \<Rightarrow> loader_error + PluginMetadata" where
  "readPluginMetadata codec extractDir fs =
     (case fs (filepath_Join [extractDir, ''plugin.json'']) of
        None \<Rightarrow> Inl ErrReadMetadata
      | Some (Archive members) \<Rightarrow> Inl ErrReadMetadata
      | Some (Bytes data) \<Rightarrow>
          (case Unmarshal codec data of
             None \<Rightarrow> Inl ErrReadMetadata
           | Some md \<Rightarrow> Inr md))"

definition loadVKPPlugin ::
  "json_codec \<Rightarrow> VKPLoader \<Rightarrow> filesystem \<Rightarrow> string \<Rightarrow> (loader_error + plugin) \<times> VKPLoader \<times> filesystem" where
  "loadVKPPlugin codec l fs path =
     (let extractDir = filepath_Join [pluginDir l, ''temp'', Base path @ ''_extracted'']
      in case extractVKP path extractDir fs of
           (Some e, fs1) \<Rightarrow> (Inl ErrExtract, l, fs1)
         | (None, fs1) \<Rightarrow>
             (case readPluginMetadata codec extractDir fs1 of
                Inl e \<Rightarrow> (Inl ErrReadMetadata, l, fs1)
              | Inr md \<Rightarrow>
                  (let binaryPath = filepath_Join [extractDir, ''plugin'']
                   in if fs1 binaryPath = None then (Inl ErrChmod, l, fs1)
                      else (let vkpPlugin = \<lparr> execPath = binaryPath, metadata = Some md, cmd = None \<rparr>;
                                name = GetName vkpPlugin
                            in (Inr (VKP vkpPlugin),
                                l \<lparr> loadedPlugins := (loadedPlugins l)(name \<mapsto>
                                      \<lparr> Plugin = VKP vkpPlugin, PluginPath = path,
                                        ExtractDir = extractDir \<rparr>) \<rparr>,
                                fs1)))))"

definition loadGoPlugin ::
  "os_env \<Rightarrow> VKPLoader \<Rightarrow> string \<Rightarrow> (loader_error + plugin) \<times> VKPLoader" where
  "loadGoPlugin env l path =
     (case open_so env path of
        None \<Rightarrow> (Inl ErrOpenGoPlugin, l)
      | Some name \<Rightarrow>
          (Inr (GoPluginInstance name),
           l \<lparr> loadedPlugins := (loadedPlugins l)(name \<mapsto>
                 \<lparr> Plugin = GoPluginInstance name, PluginPath = path, ExtractDir = [] \<rparr>) \<rparr>))"

definition LoadPlugin ::
  "json_codec \<Rightarrow> os_env \<Rightarrow> VKPLoader \<Rightarrow> filesystem \<Rightarrow> string \<Rightarrow>
     (loader_error + plugin) \<times> VKPLoader \<times> filesystem" where
  "LoadPlugin codec env l fs path =
     (if fs path = None then (Inl ErrFileNotFound, l, fs)
      else if Ext path = ''.vkp'' then loadVKPPlugin codec l fs path
      else if Ext path = ''.so'' then (case loadGoPlugin env l path of (r, l') \<Rightarrow> (r, l', fs))
      else (Inl ErrUnsupportedFormat, l, fs))"

text \<open>\<open>os.RemoveAll\<close>: the directory and everything below it.\<close>

definition RemoveAll :: "string \<Rightarrow> filesystem \<Rightarrow> filesystem" where
  "RemoveAll dir fs =
     (\<lambda>path. if path = dir \<or> take (length dir + 1) path = dir @ ''/'' then None else fs path)"

text \<open>\<open>UnloadPlugin\<close>: a failure to stop the process or to remove the extraction
  directory is logged as a warning, and the entry is deleted all the same. The result
  is the returned error, the warnings logged, the loader and the file system. A
  directory whose removal fails is left as it is.\<close>

datatype warning = WarnStopFailed | WarnCleanupFailed

definition UnloadPlugin ::
  "os_env \<Rightarrow> VKPLoader \<Rightarrow> filesystem \<Rightarrow> string \<Rightarrow>
     loader_error option \<times> warning list \<times> VKPLoader \<times> filesystem" where
  "UnloadPlugin env l fs name =
     (case loadedPlugins l name of
        None \<Rightarrow> (Some ErrNotLoaded, [], l, fs)
      | Some loadedPlugin \<Rightarrow>
          (let w1 = (case Plugin loadedPlugin of
                       VKP vkpPlugin \<Rightarrow> (if stop env vkpPlugin \<noteq> None then [WarnStopFailed] else [])
                     | GoPluginInstance n \<Rightarrow> []);
               (w2, fs1) =
                 (if ExtractDir loadedPlugin \<noteq> []
                  then (if removeall_fails env (ExtractDir loadedPlugin) then ([WarnCleanupFailed], fs)
                        else ([], RemoveAll (ExtractDir loadedPlugin) fs))
                  else ([], fs))
           in (None, w1 @ w2, l \<lparr> loadedPlugins := (loadedPlugins l)(name := None) \<rparr>, fs1)))"

definition GetPlugin :: "VKPLoader \<Rightarrow> string \<Rightarrow> plugin option \<times> bool" where
  "GetPlugin l name =
     (case loadedPlugins l name of
        None \<Rightarrow> (None, False)
      | Some loadedPlugin \<Rightarrow> (Some (Plugin loadedPlugin), True))"

subsection \<open>Example packages and environments\<close>

text \<open>
  A stand-in for \<open>encoding/json\<close> on the examples: the text of a metadata value is its
  name, and a non-empty text is read as the default metadata with that name.
\<close>

definition example_codec :: json_codec where
  "example_codec =
     \<lparr> MarshalIndent = (\<lambda>md. Name md),
       Unmarshal = (\<lambda>text. if text = [] then None else Some (default_metadata \<lparr> Name := text \<rparr>)) \<rparr>"

text \<open>An operating system on which starting, killing and removing all fail.\<close>

definition failing_os :: os_env where
  "failing_os =
     \<lparr> start = (\<lambda>path. None), kill_fails = (\<lambda>pid. True), signal_fails = (\<lambda>pid. True),
       removeall_fails = (\<lambda>dir. True), open_so = (\<lambda>path. None) \<rparr>"

text \<open>Two packages of the same plugin \<open>svc\<close>, with different binaries.\<close>

definition two_packages :: filesystem where
  "two_packages =
     [''vpks/svc_linux_amd64_v1.0.0.vkp'' \<mapsto>
        Archive [(''plugin'', TypeReg, Bytes ''binary 1.0.0''), (''plugin.json'', TypeReg, Bytes ''svc'')],
      ''vpks/svc_linux_amd64_v1.0.1.vkp'' \<mapsto>
        Archive [(''plugin'', TypeReg, Bytes ''binary 1.0.1''), (''plugin.json'', TypeReg, Bytes ''svc'')]]"

text \<open>A plugin as the loader makes it, before \<open>Initialize\<close>, and the same plugin with a
  running process.\<close>

definition extracted_plugin :: VKPPlugin where
  "extracted_plugin =
     \<lparr> execPath = ''plugins/temp/svc.vkp_extracted/plugin'',
       metadata = Some (default_metadata \<lparr> Name := ''svc'' \<rparr>), cmd = None \<rparr>"

definition running_plugin :: VKPPlugin where
  "running_plugin =
     extracted_plugin \<lparr> cmd := Some \<lparr> CmdPath = ''plugins/temp/svc.vkp_extracted/plugin'',
                                    CmdArgs = [''plugins/temp/svc.vkp_extracted/plugin'', ''--mode=gateway''],
                                    Process = Some 4711 \<rparr> \<rparr>"

text \<open>The input of the packager: a built binary, and a configuration without extra
  files.\<close>

definition built_binary :: filesystem where
  "built_binary = [''build/svc'' \<mapsto> Bytes ''binary'']"

definition package_config :: "PluginMetadata \<Rightarrow> PackageConfig" where
  "package_config md =
     \<lparr> ModulePath = ''modules/svc'', OutputPath = ''out/svc_linux_amd64_v1.0.0.vkp'',
       Metadata = Some md, IncludeFiles = [] \<rparr>"

text \<open>The plugin and the loader entry that loading the package \<open>vpks/<vkp>\<close> of
  \<open>two_packages\<close> makes.\<close>

definition svc_plugin :: "string \<Rightarrow> plugin" where
  "svc_plugin vkp =
     VKP \<lparr> execPath = ''plugins/temp/'' @ vkp @ ''_extracted/plugin'',
           metadata = Some (default_metadata \<lparr> Name := ''svc'' \<rparr>), cmd = None \<rparr>"

definition svc_entry :: "string \<Rightarrow> LoadedPlugin" where
  "svc_entry vkp =
     \<lparr> Plugin = svc_plugin vkp, PluginPath = ''vpks/'' @ vkp,
       ExtractDir = ''plugins/temp/'' @ vkp @ ''_extracted'' \<rparr>"

text \<open>The loader and the file system after loading the first of the two packages.\<close>

definition loader_after_first :: VKPLoader where
  "loader_after_first =
     \<lparr> loadedPlugins = [''svc'' \<mapsto> svc_entry ''svc_linux_amd64_v1.0.0.vkp''],
       pluginDir = ''plugins'' \<rparr>"

definition files_after_first :: filesystem where
  "files_after_first =
     two_packages
       (''plugins/temp/svc_linux_amd64_v1.0.0.vkp_extracted/plugin'' \<mapsto> Bytes ''binary 1.0.0'',
        ''plugins/temp/svc_linux_amd64_v1.0.0.vkp_extracted/plugin.json'' \<mapsto> Bytes ''svc'')"

text \<open>A loader that holds a plugin with a running process.\<close>

definition loader_with_running :: VKPLoader where
  "loader_with_running =
     \<lparr> loadedPlugins = [''svc'' \<mapsto> \<lparr> Plugin = VKP running_plugin, PluginPath = ''vpks/svc.vkp'',
                                     ExtractDir = ''plugins/temp/svc.vkp_extracted'' \<rparr>],
       pluginDir = ''plugins'' \<rparr>"

section \<open>Properties of the file-name parser\<close>

lemma match_digits_Some:
  "match_digits s = Some r \<longleftrightarrow> takeWhile is_digit s \<noteq> [] \<and> r = dropWhile is_digit s"
  by (auto simp: match_digits_def)

lemma match_digits_append:
  assumes "d \<noteq> []" "list_all is_digit d"
  shows "match_digits (d @ CHR ''.'' # x) = Some (CHR ''.'' # x)"
proof -
  have nd: "\<not> is_digit CHR ''.''" by (simp add: is_digit_def)
  have "takeWhile is_digit (d @ CHR ''.'' # x) = d"
    using assms(2) nd by (simp add: list_all_iff takeWhile_append2)
  moreover have "dropWhile is_digit (d @ CHR ''.'' # x) = CHR ''.'' # x"
    using assms(2) nd by (simp add: list_all_iff dropWhile_append2)
  ultimately show ?thesis using assms(1) by (simp add: match_digits_def)
qed

lemma match_digits_prefix:
  assumes "d \<noteq> []" "list_all is_digit d"
  shows "match_digits (d @ x) \<noteq> None"
proof -
  obtain c cs where d: "d = c # cs" using assms(1) by (cases d) auto
  then have "is_digit c" using assms(2) by simp
  then show ?thesis by (simp add: match_digits_def d)
qed

lemma match_dot_Some: "match_dot s = Some r \<longleftrightarrow> s = CHR ''.'' # r"
  by (cases s) auto

lemma match_opt_v_cases: "part = match_opt_v part \<or> part = CHR ''v'' # match_opt_v part"
  by (cases part) auto

lemma match_opt_v_digit:
  assumes "d \<noteq> []" "list_all is_digit d"
  shows "match_opt_v (d @ x) = d @ x"
proof -
  obtain c cs where d: "d = c # cs" using assms(1) by (cases d) auto
  then have "is_digit c" using assms(2) by simp
  then have "c \<noteq> CHR ''v''" by (auto simp: is_digit_def)
  then show ?thesis by (simp add: d)
qed

lemma version_regex_language_match:
  assumes "version_regex_language part"
  shows "version_regex_match part"
proof -
  from assms obtain v d1 d2 d3 rest where
    p: "part = v @ d1 @ ''.'' @ d2 @ ''.'' @ d3 @ rest" and
    v: "v = [] \<or> v = ''v''" and
    d1: "d1 \<noteq> []" "list_all is_digit d1" and
    d2: "d2 \<noteq> []" "list_all is_digit d2" and
    d3: "d3 \<noteq> []" "list_all is_digit d3"
    unfolding version_regex_language_def by blast
  have "match_opt_v part = d1 @ CHR ''.'' # (d2 @ CHR ''.'' # (d3 @ rest))"
    using v match_opt_v_digit [OF d1] by (auto simp: p)
  then show ?thesis
    using match_digits_append [OF d1] match_digits_append [OF d2] match_digits_prefix [OF d3]
    by (simp add: version_regex_match_def)
qed

lemma version_regex_match_language:
  assumes "version_regex_match part"
  shows "version_regex_language part"
proof -
  from assms obtain r1 r2 r3 r4 where
    m1: "match_digits (match_opt_v part) = Some r1" and
    m2: "match_dot r1 = Some r2" and
    m3: "match_digits r2 = Some r3" and
    m4: "match_dot r3 = Some r4" and
    m5: "match_digits r4 \<noteq> None"
    by (auto simp: version_regex_match_def split: option.splits)
  define s where "s = match_opt_v part"
  define d1 where "d1 = takeWhile is_digit s"
  define d2 where "d2 = takeWhile is_digit r2"
  define d3 where "d3 = takeWhile is_digit r4"
  have s: "s = d1 @ r1" and d1: "d1 \<noteq> []"
    using m1 by (simp_all add: match_digits_Some s_def d1_def)
  have r1: "r1 = CHR ''.'' # r2" using m2 by (simp add: match_dot_Some)
  have r2: "r2 = d2 @ r3" and d2: "d2 \<noteq> []"
    using m3 by (simp_all add: match_digits_Some d2_def)
  have r3: "r3 = CHR ''.'' # r4" using m4 by (simp add: match_dot_Some)
  have r4: "r4 = d3 @ dropWhile is_digit r4" and d3: "d3 \<noteq> []"
    using m5 by (simp_all add: match_digits_def d3_def split: if_splits)
  have digs: "list_all is_digit d1" "list_all is_digit d2" "list_all is_digit d3"
    by (auto simp: d1_def d2_def d3_def list_all_iff dest: set_takeWhileD)
  have "s = d1 @ ''.'' @ d2 @ ''.'' @ d3 @ dropWhile is_digit r4"
    using s r1 r2 r3 r4 by simp
  moreover have "part = [] @ s \<or> part = ''v'' @ s"
    using match_opt_v_cases [of part] by (simp add: s_def)
  ultimately show ?thesis
    unfolding version_regex_language_def using d1 d2 d3 digs by blast
qed

lemma find_version_index_Some:
  "find_version_index parts k = Some i \<longleftrightarrow>
     i < k \<and> version_regex_match (parts ! i) \<and>
     (\<forall>j. i < j \<and> j < k \<longrightarrow> \<not> version_regex_match (parts ! j))"
proof (induction k)
  case 0
  then show ?case by simp
next
  case (Suc k)
  show ?case
  proof (cases "version_regex_match (parts ! k)")
    case True
    then show ?thesis
      by (auto simp: less_Suc_eq) 
  next
    case False
    then show ?thesis
      using Suc by (auto simp: less_Suc_eq)
  qed
qed

lemma version_regex_match_iff: "version_regex_match part \<longleftrightarrow> version_regex_language part"
  using version_regex_language_match version_regex_match_language by blast

lemma parsePluginInfo_Inr_iff:
  "parsePluginInfo filename = Inr info \<longleftrightarrow>
     (\<exists>parts i. parts = Split (TrimSuffix filename ''.vkp'') CHR ''_'' \<and>
        3 \<le> length parts \<and> 1 \<le> i \<and> i < length parts \<and>
        version_regex_language (parts ! i) \<and>
        (\<forall>j. i < j \<and> j < length parts \<longrightarrow> \<not> version_regex_language (parts ! j)) \<and>
        info = \<lparr> ServiceName = parts ! 0,
                  Platform = Join (take (i - 1) (drop 1 parts)) ''_'',
                  Version = Join (drop i parts) ''_'',
                  Filename = filename \<rparr>)"
  (is "?L \<longleftrightarrow> ?R")
proof
  define parts where "parts = Split (TrimSuffix filename ''.vkp'') CHR ''_''"
  assume ?L
  then obtain i where len: "3 \<le> length parts"
    and f: "find_version_index parts (length parts) = Some i"
    and i: "1 \<le> i"
    and info: "info = \<lparr> ServiceName = parts ! 0,
                  Platform = Join (take (i - 1) (drop 1 parts)) ''_'',
                  Version = Join (drop i parts) ''_'',
                  Filename = filename \<rparr>"
    by (auto simp: parsePluginInfo_def Let_def parts_def split: if_splits option.splits)
  from f show ?R
    unfolding find_version_index_Some version_regex_match_iff
    using len i info parts_def by blast
next
  assume ?R
  then obtain parts i where parts: "parts = Split (TrimSuffix filename ''.vkp'') CHR ''_''"
    and len: "3 \<le> length parts" and i: "1 \<le> i" "i < length parts"
    and m: "version_regex_language (parts ! i)"
       "\<forall>j. i < j \<and> j < length parts \<longrightarrow> \<not> version_regex_language (parts ! j)"
    and info: "info = \<lparr> ServiceName = parts ! 0,
                  Platform = Join (take (i - 1) (drop 1 parts)) ''_'',
                  Version = Join (drop i parts) ''_'',
                  Filename = filename \<rparr>"
    by blast
  have "find_version_index parts (length parts) = Some i"
    unfolding find_version_index_Some version_regex_match_iff using i m by blast
  then show ?L
    using len i info by (simp add: parsePluginInfo_def Let_def parts [symmetric])
qed

lemmas parse_eval = parsePluginInfo_def TrimSuffix_def HasSuffix_def Split_def
  version_regex_match_def match_digits_def is_digit_def

lemma parse_example_1:
  "parsePluginInfo ''foo_linux_amd64_v1.0.0.vkp'' =
     Inr \<lparr> ServiceName = ''foo'', Platform = ''linux_amd64'', Version = ''v1.0.0'',
           Filename = ''foo_linux_amd64_v1.0.0.vkp'' \<rparr>"
  by (simp add: parse_eval)

lemma parse_example_2:
  "parsePluginInfo ''foo_linux_amd64_v10.20.30-rc1.vkp'' =
     Inr \<lparr> ServiceName = ''foo'', Platform = ''linux_amd64'', Version = ''v10.20.30-rc1'',
           Filename = ''foo_linux_amd64_v10.20.30-rc1.vkp'' \<rparr>"
  by (simp add: parse_eval)

text \<open>
  Claim C4. Filename parsing walks the underscore-separated parts from right to left for
  the first part matching the version pattern, takes the first part as the service and
  the parts between as the platform. The two file names of the specification parse as
  it says, and a file name parses exactly when it has at least three parts and the last
  part matching the pattern is not the first part; the result is then the first part,
  the parts between, and the parts from the version part on.
\<close>

theorem parsePluginInfo_right_to_left:
  "parsePluginInfo ''foo_linux_amd64_v1.0.0.vkp'' =
     Inr \<lparr> ServiceName = ''foo'', Platform = ''linux_amd64'', Version = ''v1.0.0'',
           Filename = ''foo_linux_amd64_v1.0.0.vkp'' \<rparr> \<and>
   parsePluginInfo ''foo_linux_amd64_v10.20.30-rc1.vkp'' =
     Inr \<lparr> ServiceName = ''foo'', Platform = ''linux_amd64'', Version = ''v10.20.30-rc1'',
           Filename = ''foo_linux_amd64_v10.20.30-rc1.vkp'' \<rparr> \<and>
   (\<forall>filename info.
      parsePluginInfo filename = Inr info \<longleftrightarrow>
        (\<exists>parts i. parts = Split (TrimSuffix filename ''.vkp'') CHR ''_'' \<and>
           3 \<le> length parts \<and> 1 \<le> i \<and> i < length parts \<and>
           version_regex_language (parts ! i) \<and>
           (\<forall>j. i < j \<and> j < length parts \<longrightarrow> \<not> version_regex_language (parts ! j)) \<and>
           info = \<lparr> ServiceName = parts ! 0,
                     Platform = Join (take (i - 1) (drop 1 parts)) ''_'',
                     Version = Join (drop i parts) ''_'',
                     Filename = filename \<rparr>))"
  using parse_example_1 parse_example_2 parsePluginInfo_Inr_iff by blast

theorem parsePluginInfo_right_to_left_witness:
  "\<exists>i. 1 \<le> i \<and> i < length (Split ''svc_darwin_arm64_2.3.4'' CHR ''_'') \<and>
       version_regex_language (Split ''svc_darwin_arm64_2.3.4'' CHR ''_'' ! i) \<and>
       \<lparr> ServiceName = ''svc'', Platform = ''darwin_arm64'', Version = ''2.3.4'',
           Filename = ''svc_darwin_arm64_2.3.4.vkp'' \<rparr> =
       \<lparr> ServiceName = Split ''svc_darwin_arm64_2.3.4'' CHR ''_'' ! 0,
           Platform = Join (take (i - 1) (drop 1 (Split ''svc_darwin_arm64_2.3.4'' CHR ''_''))) ''_'',
           Version = Join (drop i (Split ''svc_darwin_arm64_2.3.4'' CHR ''_'')) ''_'',
           Filename = ''svc_darwin_arm64_2.3.4.vkp'' \<rparr>"
proof -
  have p: "parsePluginInfo ''svc_darwin_arm64_2.3.4.vkp'' =
     Inr \<lparr> ServiceName = ''svc'', Platform = ''darwin_arm64'', Version = ''2.3.4'',
           Filename = ''svc_darwin_arm64_2.3.4.vkp'' \<rparr>"
    by (simp add: parse_eval)
  have t: "TrimSuffix ''svc_darwin_arm64_2.3.4.vkp'' ''.vkp'' = ''svc_darwin_arm64_2.3.4''"
    by (simp add: TrimSuffix_def HasSuffix_def)
  from parsePluginInfo_right_to_left p show ?thesis
    unfolding t [symmetric] by blast
qed

section \<open>Properties of the paths\<close>

lemma split_from_append:
  "split_from (a @ sep # b) sep piece = split_from a sep piece @ split_from b sep []"
  by (induction a arbitrary: piece) simp_all

lemma split_from_no_sep: "sep \<notin> set b \<Longrightarrow> split_from b sep piece = [piece @ b]"
  by (induction b arbitrary: piece) auto

lemma Split_append: "Split (a @ sep # b) sep = Split a sep @ Split b sep"
  by (simp add: Split_def split_from_append)

lemma Split_no_sep: "sep \<notin> set b \<Longrightarrow> Split b sep = [b]"
  by (simp add: Split_def split_from_no_sep)

lemma Join_snoc: "Join (es @ [f]) sep = (if es = [] then f else Join es sep @ sep @ f)"
  by (induction es sep rule: Join.induct) simp_all

lemma clean_step_plain:
  "plain_name f \<Longrightarrow> clean_step rooted kept f = kept @ [f]"
  by (simp add: clean_step_def plain_name_def)

lemma is_rooted_append: "d \<noteq> [] \<Longrightarrow> is_rooted (d @ x) = is_rooted d"
  by (cases d) (simp_all add: is_rooted_def)

lemma clean_elements_plain:
  assumes "plain_name f" and "d \<noteq> []"
  shows "clean_elements (d @ CHR ''/'' # f) = clean_elements d @ [f]"
proof -
  have "Split (d @ CHR ''/'' # f) CHR ''/'' = Split d CHR ''/'' @ [f]"
    using assms(1) by (simp add: Split_append Split_no_sep plain_name_def)
  then show ?thesis
    using assms by (simp add: clean_elements_def is_rooted_append clean_step_plain)
qed

lemma clean_elements_plain_alone:
  assumes "plain_name f"
  shows "clean_elements f = [f]"
proof -
  have "Split f CHR ''/'' = [f]"
    using assms by (simp add: Split_no_sep plain_name_def)
  then show ?thesis
    using assms by (simp add: clean_elements_def clean_step_plain)
qed

lemma plain_name_not_rooted: "plain_name f \<Longrightarrow> \<not> is_rooted f"
  by (cases f) (auto simp: plain_name_def is_rooted_def)

text \<open>Joining a directory with a plain name gives a path that ends with the name, after
  a slash or alone.\<close>

lemma filepath_Join_plain:
  assumes "plain_name f"
  shows "\<exists>x. filepath_Join [d, f] = x @ f \<and> (x = [] \<or> last x = CHR ''/'')"
proof (cases "d = []")
  case True
  have "f \<noteq> []" using assms by (simp add: plain_name_def)
  then have "filepath_Join [d, f] = Clean f" using True by (simp add: filepath_Join_def)
  also have "\<dots> = f"
    using assms by (simp add: Clean_def clean_elements_plain_alone plain_name_not_rooted)
  finally show ?thesis by simp
next
  case False
  then have j: "filepath_Join [d, f] = Clean (d @ CHR ''/'' # f)"
    by (simp add: filepath_Join_def)
  have r: "is_rooted (d @ CHR ''/'' # f) = is_rooted d"
    using False by (rule is_rooted_append)
  note e = clean_elements_plain [OF assms False]
  show ?thesis
  proof (cases "clean_elements d = []")
    case True
    then show ?thesis
      by (cases "is_rooted d") (simp_all add: j Clean_def r e)
  next
    case ne: False
    show ?thesis
    proof (cases "is_rooted d")
      case True
      then have "filepath_Join [d, f] = (CHR ''/'' # Join (clean_elements d) ''/'' @ ''/'') @ f"
        using ne by (simp add: j Clean_def r e Join_snoc)
      then show ?thesis by (intro exI conjI) (assumption, simp)
    next
      case False
      then have "filepath_Join [d, f] = (Join (clean_elements d) ''/'' @ ''/'') @ f"
        using ne by (simp add: j Clean_def r e Join_snoc)
      then show ?thesis by (intro exI conjI) (assumption, simp)
    qed
  qed
qed

lemma Base_after_slash:
  assumes "plain_name f" and "x = [] \<or> last x = CHR ''/''"
  shows "Base (x @ f) = f"
proof -
  have ne: "f \<noteq> []" and ns: "CHR ''/'' \<notin> set f" using assms(1) by (simp_all add: plain_name_def)
  have lf: "last f \<noteq> CHR ''/''" using ne ns by (metis last_in_set)
  have hd: "hd (rev f) \<noteq> CHR ''/''" using ne lf by (simp add: hd_rev)
  have d: "dropWhile (\<lambda>c. c = CHR ''/'') (rev f @ rev x) = rev f @ rev x"
    using ne hd by (cases "rev f") simp_all
  have all: "\<And>c. c \<in> set (rev f) \<Longrightarrow> c \<noteq> CHR ''/''" using ns by auto
  have t: "takeWhile (\<lambda>c. c \<noteq> CHR ''/'') (rev f @ rev x) = rev f"
  proof (cases "x = []")
    case True
    then show ?thesis using all by (simp add: takeWhile_eq_all_conv)
  next
    case False
    then have "hd (rev x) = CHR ''/''" using assms(2) by (simp add: hd_rev)
    then obtain ys where ys: "rev x = CHR ''/'' # ys" using False by (cases "rev x") simp_all
    have "takeWhile (\<lambda>c. c \<noteq> CHR ''/'') (rev f @ rev x) =
        rev f @ takeWhile (\<lambda>c. c \<noteq> CHR ''/'') (rev x)"
      by (rule takeWhile_append2) (rule all)
    then show ?thesis by (simp add: ys)
  qed
  show ?thesis
    using ne by (simp add: Base_def Let_def d t)
qed

lemma Base_filepath_Join_plain:
  assumes "plain_name f"
  shows "Base (filepath_Join [d, f]) = f"
proof -
  from filepath_Join_plain [OF assms, of d] obtain x where
    j: "filepath_Join [d, f] = x @ f" and x: "x = [] \<or> last x = CHR ''/''" by blast
  show ?thesis unfolding j using assms x by (rule Base_after_slash)
qed

lemma entry_place_plain:
  "plain_name f \<Longrightarrow> entry_place d (filepath_Join [d, f])"
  by (simp add: entry_place_def Base_filepath_Join_plain)

text \<open>What \<open>extractFilename\<close> accepts has no slash, and with the suffix \<open>.vkp\<close> it is a
  plain name.\<close>

lemma Base_no_slash:
  assumes "Base p \<noteq> ''/''" and "Base p \<noteq> ''.''"
  shows "CHR ''/'' \<notin> set (Base p) \<and> Base p \<noteq> []"
proof -
  let ?e = "rev (takeWhile (\<lambda>c. c \<noteq> CHR ''/'')
              (rev (rev (dropWhile (\<lambda>c. c = CHR ''/'') (rev p)))))"
  have p: "p \<noteq> []" using assms(2) by (auto simp: Base_def)
  have e: "?e \<noteq> []" using assms(1) p by (auto simp: Base_def Let_def)
  then have b: "Base p = ?e" using p by (simp add: Base_def Let_def)
  have "CHR ''/'' \<notin> set ?e" by (auto dest: set_takeWhileD)
  with e b show ?thesis by simp
qed

lemma vkp_name_plain:
  assumes "CHR ''/'' \<notin> set f" and "HasSuffix f ''.vkp''"
  shows "plain_name f"
proof -
  have "f \<noteq> []" "f \<noteq> ''.''" "f \<noteq> ''..''"
    using assms(2) by (auto simp: HasSuffix_def)
  with assms(1) show ?thesis by (simp add: plain_name_def)
qed

lemmas path_eval = filepath_Join_def Clean_def clean_elements_def clean_step_def is_rooted_def
  Split_def Let_def

section \<open>Properties of the installer\<close>

lemma parsePluginInfo_Filename: "parsePluginInfo f = Inr info \<Longrightarrow> Filename info = f"
  by (auto simp: parsePluginInfo_def Let_def split: if_splits option.splits)

lemma has_service_iff:
  "has_service s f \<longleftrightarrow> (\<exists>info. parsePluginInfo f = Inr info \<and> ServiceName info = s)"
  by (auto simp: has_service_def split: sum.splits)

lemma collect_service_Inl: "collect_service sv fs = Inl e \<Longrightarrow> e = PanicSliceBounds"
  by (induction fs) (auto split: sum.splits if_splits)

lemma collect_service_Inr:
  "collect_service sv fs = Inr infos \<Longrightarrow> map Filename infos = filter (has_service sv) fs"
proof (induction fs arbitrary: infos)
  case Nil
  then show ?case by simp
next
  case (Cons f fs)
  show ?case
  proof (cases "parsePluginInfo f")
    case (Inl e)
    with Cons show ?thesis
      by (auto simp: has_service_def split: if_splits)
  next
    case (Inr info)
    with Cons.prems obtain rest where r: "collect_service sv fs = Inr rest"
      and infos: "infos = (if ServiceName info = sv then info # rest else rest)"
      by (auto split: sum.splits)
    from Cons.IH [OF r] Inr infos show ?thesis
      by (auto simp: has_service_def dest: parsePluginInfo_Filename)
  qed
qed

lemma findPluginsByService_Inl:
  "findPluginsByService env files sv = Inl e \<Longrightarrow>
     e = PanicSliceBounds \<or> (e = ErrBadPattern \<and> glob_bad_pattern env)"
  by (auto simp: findPluginsByService_def ListInstalledPlugins_def
      dest: collect_service_Inl split: if_splits)

lemma findPluginsByService_listed:
  "findPluginsByService env files sv = Inr infos \<Longrightarrow>
     map Filename infos =
       filter (\<lambda>f. (HasSuffix f ''.vkp'' \<and> glob_reports env f) \<and> has_service sv f) files"
  by (auto simp: findPluginsByService_def ListInstalledPlugins_def
      dest!: collect_service_Inr split: if_splits)

lemma findPluginsByService_Inr:
  assumes "findPluginsByService env files sv = Inr infos" and "listing_complete env files"
  shows "map Filename infos = service_files sv files"
proof -
  have "filter (\<lambda>f. (HasSuffix f ''.vkp'' \<and> glob_reports env f) \<and> has_service sv f) files =
      filter (\<lambda>f. HasSuffix f ''.vkp'' \<and> has_service sv f) files"
    using assms(2) by (intro filter_cong) (auto simp: listing_complete_def list_all_iff)
  with findPluginsByService_listed [OF assms(1)] show ?thesis
    by (simp add: service_files_def)
qed

lemma findPluginsByService_subset:
  assumes "findPluginsByService env files sv = Inr infos"
  shows "Filename ` set infos \<subseteq> set files"
proof -
  have "set (map Filename infos) \<subseteq> set files"
    unfolding findPluginsByService_listed [OF assms] by auto
  then show ?thesis by simp
qed

text \<open>On a plain name, \<open>RemovePlugin\<close> decides by the entry of that name.\<close>

lemma RemovePlugin_plain:
  assumes "plain_name f"
  shows "RemovePlugin env d f files =
     (if f \<notin> set files
      then (if stat_fails env f then (Some ErrRemoveFailed, files) else (Some ErrNotExist, files))
      else if remove_fails env f then (Some ErrRemoveFailed, files)
      else (None, removeAll f files))"
  using assms
  by (simp add: RemovePlugin_def Let_def entry_place_plain Base_filepath_Join_plain)

lemma RemovePlugin_subset: "set (snd (RemovePlugin env d f files)) \<subseteq> set files"
  by (auto simp: RemovePlugin_def Let_def split: outside_outcome.splits)

lemma RemovePlugin_None:
  "plain_name f \<Longrightarrow> RemovePlugin env d f files = (None, files') \<Longrightarrow> set files' = set files - {f}"
  by (auto simp: RemovePlugin_plain split: if_splits)

lemma evict_subset: "set (snd (evict env d fn infos files)) \<subseteq> set files"
proof (induction infos arbitrary: files)
  case Nil
  then show ?case by simp
next
  case (Cons p ps)
  show ?case
  proof (cases "Filename p = fn")
    case True
    then show ?thesis using Cons.IH by simp
  next
    case False
    obtain r files1 where rm: "RemovePlugin env d (Filename p) files = (r, files1)"
      by (cases "RemovePlugin env d (Filename p) files")
    then have sub: "set files1 \<subseteq> set files"
      using RemovePlugin_subset [of env d "Filename p" files] by simp
    show ?thesis
    proof (cases r)
      case None
      then show ?thesis using False rm sub Cons.IH [of files1] by auto
    next
      case (Some e)
      then show ?thesis using False rm sub by auto
    qed
  qed
qed

lemma evict_None:
  "\<forall>p \<in> set infos. plain_name (Filename p) \<Longrightarrow>
   evict env d fn infos files = (None, files') \<Longrightarrow>
     set files' = set files - (Filename ` set infos - {fn})"
proof (induction infos arbitrary: files)
  case Nil
  then show ?case by simp
next
  case (Cons p ps)
  have plain: "plain_name (Filename p)" and rest: "\<forall>q \<in> set ps. plain_name (Filename q)"
    using Cons.prems(1) by simp_all
  show ?case
  proof (cases "Filename p = fn")
    case True
    then show ?thesis using Cons.IH [OF rest] Cons.prems(2) by auto
  next
    case False
    obtain r files1 where rm: "RemovePlugin env d (Filename p) files = (r, files1)"
      by (cases "RemovePlugin env d (Filename p) files")
    with Cons.prems(2) False have r: "r = None" and ev: "evict env d fn ps files1 = (None, files')"
      by (auto split: option.splits)
    from rm r have "set files1 = set files - {Filename p}"
      by (simp add: RemovePlugin_None [OF plain])
    with Cons.IH [OF rest ev] False show ?thesis by auto
  qed
qed

lemma set_create_file: "set (create_file f files) = insert f (set files)"
  by (simp add: create_file_def set_insort_key insert_absorb)

lemma download_to_Inr:
  "download_to env d fn files = (Inr p, files') \<Longrightarrow>
     p = filepath_Join [d, fn] \<and> set files' = insert fn (set files)"
  by (auto simp: download_to_def downloadFile_def set_create_file
      split: download_outcome.splits prod.splits option.splits)

lemma download_to_subset:
  "set (snd (download_to env d fn files)) \<subseteq> insert fn (set files)"
  by (auto simp: download_to_def downloadFile_def set_create_file
      split: download_outcome.splits prod.splits option.splits)

lemma service_files_mono:
  "set files' \<subseteq> set files \<Longrightarrow> set (service_files s files') \<subseteq> set (service_files s files)"
  by (auto simp: service_files_def)

lemma service_files_insert_other:
  assumes "set files' \<subseteq> insert fn (set files)" and "\<not> has_service s fn"
  shows "set (service_files s files') \<subseteq> set (service_files s files)"
  using assms by (auto simp: service_files_def)

lemma card_service_files_le:
  assumes "set (service_files s files') \<subseteq> set (service_files s files)"
    and "card (set (service_files s files)) \<le> 1"
  shows "card (set (service_files s files')) \<le> 1"
proof -
  have "card (set (service_files s files')) \<le> card (set (service_files s files))"
    by (rule card_mono [OF finite_set assms(1)])
  with assms(2) show ?thesis by simp
qed

lemma card_subset_singleton: "A \<subseteq> {x} \<Longrightarrow> card A \<le> 1"
proof -
  assume "A \<subseteq> {x}"
  then have "card A \<le> card {x}" by (intro card_mono) simp_all
  then show ?thesis by simp
qed

lemma InstallFromURL_invalid:
  "validateURL u = Some e \<Longrightarrow> InstallFromURL env d u files = (Inl ErrInvalidURL, files)"
  by (simp add: InstallFromURL_def)

lemma InstallFromURL_no_filename:
  "validateURL u = None \<Longrightarrow> extractFilename u = Inl e \<Longrightarrow>
     InstallFromURL env d u files = (Inl ErrNoFilename, files)"
  by (simp add: InstallFromURL_def)

lemma InstallFromURL_not_vkp:
  "validateURL u = None \<Longrightarrow> extractFilename u = Inr fn \<Longrightarrow> validatePluginFilename fn = Some e \<Longrightarrow>
     InstallFromURL env d u files = (Inl ErrNotVkp, files)"
  by (simp add: InstallFromURL_def)

lemma InstallFromURL_named:
  "validateURL u = None \<Longrightarrow> extractFilename u = Inr fn \<Longrightarrow> validatePluginFilename fn = None \<Longrightarrow>
     InstallFromURL env d u files =
       (case parsePluginInfo fn of
          Inl e \<Rightarrow>
            if e = PanicSliceBounds then (Inl PanicSliceBounds, files)
            else download_to env d fn files
        | Inr newPluginInfo \<Rightarrow>
            (case findPluginsByService env files (ServiceName newPluginInfo) of
               Inl e \<Rightarrow>
                 if e = PanicSliceBounds then (Inl PanicSliceBounds, files)
                 else download_to env d fn files
             | Inr existingPlugins \<Rightarrow>
                 (case evict env d fn existingPlugins files of
                    (Some e, files') \<Rightarrow> (Inl e, files')
                  | (None, files') \<Rightarrow> download_to env d fn files')))"
  by (simp add: InstallFromURL_def)

text \<open>The name under which a call writes is a plain name.\<close>

lemma accepted_name_plain:
  assumes "extractFilename u = Inr fn" and "validatePluginFilename fn = None"
  shows "plain_name fn"
proof -
  from assms(1) obtain path where fn: "fn = Base path"
    and ne: "Base path \<noteq> ''.''" "Base path \<noteq> ''/''"
  proof (cases u)
    case None
    with assms(1) show ?thesis by (simp add: extractFilename_def)
  next
    case (Some parsedURL)
    with assms(1) have "fn = Base (Path parsedURL)" "Base (Path parsedURL) \<noteq> ''.''"
      "Base (Path parsedURL) \<noteq> ''/''"
      by (auto simp: extractFilename_def Let_def split: if_splits)
    then show ?thesis by (rule that)
  qed
  have "CHR ''/'' \<notin> set fn" using Base_no_slash [of path] ne fn by simp
  moreover have "HasSuffix fn ''.vkp''"
    using assms(2) by (simp add: validatePluginFilename_def split: if_splits)
  ultimately show ?thesis by (rule vkp_name_plain)
qed

text \<open>A call changes the directory by removals and at most one new entry, of a plain
  name.\<close>

lemma InstallFromURL_entries:
  "snd (InstallFromURL env d u files) = files \<or>
   (\<exists>fn. plain_name fn \<and> set (snd (InstallFromURL env d u files)) \<subseteq> insert fn (set files))"
proof (cases "validateURL u")
  case (Some e)
  then show ?thesis by (simp add: InstallFromURL_invalid)
next
  case v: None
  show ?thesis
  proof (cases "extractFilename u")
    case (Inl e)
    then show ?thesis using v by (simp add: InstallFromURL_no_filename)
  next
    case fn: (Inr fn)
    show ?thesis
    proof (cases "validatePluginFilename fn")
      case (Some e)
      then show ?thesis using v fn by (simp add: InstallFromURL_not_vkp)
    next
      case vf: None
      note unf = InstallFromURL_named [OF v fn vf]
      note plain = accepted_name_plain [OF fn vf]
      have dl: "\<And>fs. set fs \<subseteq> set files \<Longrightarrow>
          set (snd (download_to env d fn fs)) \<subseteq> insert fn (set files)"
        using download_to_subset [of env d fn] by blast
      have "set (snd (InstallFromURL env d u files)) \<subseteq> insert fn (set files)"
      proof (cases "parsePluginInfo fn")
        case (Inl e)
        then show ?thesis using dl [of files] by (auto simp: unf)
      next
        case (Inr info)
        show ?thesis
        proof (cases "findPluginsByService env files (ServiceName info)")
          case (Inl e)
          then show ?thesis using Inr dl [of files] by (auto simp: unf)
        next
          case infos: (Inr infos)
          obtain r files1 where ev: "evict env d fn infos files = (r, files1)"
            by (cases "evict env d fn infos files")
          have sub1: "set files1 \<subseteq> set files"
            using evict_subset [of env d fn infos files] ev by simp
          show ?thesis
          proof (cases r)
            case (Some e)
            then show ?thesis using Inr infos ev sub1 by (auto simp: unf)
          next
            case None
            then show ?thesis using Inr infos ev dl [OF sub1] by (simp add: unf)
          qed
        qed
      qed
      with plain show ?thesis by blast
    qed
  qed
qed

lemma InstallFromURL_plain:
  assumes "list_all plain_name files"
  shows "list_all plain_name (snd (InstallFromURL env d u files))"
  using InstallFromURL_entries [of env d u files] assms
  by (auto simp: list_all_iff)

lemma InstallFromURL_step:
  assumes plain: "list_all plain_name files" and complete: "listing_complete env files"
  shows "set (service_files s (snd (InstallFromURL env d u files))) \<subseteq> set (service_files s files)
     \<or> (\<exists>fn. set (service_files s (snd (InstallFromURL env d u files))) \<subseteq> {fn})"
proof -
  let ?files' = "snd (InstallFromURL env d u files)"
  show ?thesis
  proof (cases "validateURL u")
    case (Some e)
    then show ?thesis by (simp add: InstallFromURL_invalid)
  next
    case v: None
    show ?thesis
    proof (cases "extractFilename u")
      case (Inl e)
      then show ?thesis using v by (simp add: InstallFromURL_no_filename)
    next
      case fn: (Inr fn)
      show ?thesis
      proof (cases "validatePluginFilename fn")
        case (Some e)
        then show ?thesis using v fn by (simp add: InstallFromURL_not_vkp)
      next
        case vf: None
        note unf = InstallFromURL_named [OF v fn vf]
        show ?thesis
        proof (cases "parsePluginInfo fn")
          case (Inl e)
          then have ns: "\<not> has_service s fn" by (simp add: has_service_def)
          have "set ?files' \<subseteq> insert fn (set files)"
            using Inl download_to_subset [of env d fn files] by (auto simp: unf)
          from service_files_insert_other [OF this ns] show ?thesis by simp
        next
          case (Inr info)
          show ?thesis
          proof (cases "findPluginsByService env files (ServiceName info)")
            case (Inl e)
            then have "e = PanicSliceBounds"
              using findPluginsByService_Inl [OF Inl] complete by (auto simp: listing_complete_def)
            then have "?files' = files"
              using Inr Inl by (simp add: unf)
            then show ?thesis by simp
          next
            case infos: (Inr infos)
            obtain r files1 where ev: "evict env d fn infos files = (r, files1)"
              by (cases "evict env d fn infos files")
            have sub1: "set files1 \<subseteq> set files"
              using evict_subset [of env d fn infos files] ev by simp
            show ?thesis
            proof (cases r)
              case (Some e)
              then have "?files' = files1"
                using Inr infos ev by (simp add: unf)
              with service_files_mono [OF sub1] show ?thesis by simp
            next
              case None
              then have f': "?files' = snd (download_to env d fn files1)"
                using Inr infos ev by (simp add: unf)
              have sub2: "set ?files' \<subseteq> insert fn (set files1)"
                unfolding f' by (rule download_to_subset)
              show ?thesis
              proof (cases "ServiceName info = s")
                case False
                then have ns: "\<not> has_service s fn" using Inr by (simp add: has_service_def)
                have "set ?files' \<subseteq> insert fn (set files)" using sub1 sub2 by auto
                from service_files_insert_other [OF this ns] show ?thesis by simp
              next
                case True
                have names: "Filename ` set infos = set (service_files s files)"
                  using findPluginsByService_Inr [OF infos complete] True by (metis set_map)
                have "\<forall>p \<in> set infos. plain_name (Filename p)"
                  using findPluginsByService_subset [OF infos] plain by (auto simp: list_all_iff)
                from evict_None [OF this, of env d fn files files1] ev None names
                have "set files1 = set files - (set (service_files s files) - {fn})" by simp
                then have "set (service_files s files1) \<subseteq> {fn}"
                  by (auto simp: service_files_def)
                with sub2 have "set (service_files s ?files') \<subseteq> {fn}"
                  by (auto simp: service_files_def)
                then show ?thesis by blast
              qed
            qed
          qed
        qed
      qed
    qed
  qed
qed

lemma InstallFromURL_preserves:
  assumes plain: "list_all plain_name files" and complete: "listing_complete env files"
    and inv: "card (set (service_files s files)) \<le> 1"
  shows "card (set (service_files s (snd (InstallFromURL env d u files)))) \<le> 1"
proof -
  from InstallFromURL_step [OF plain complete, of s d u] show ?thesis
  proof
    assume "set (service_files s (snd (InstallFromURL env d u files))) \<subseteq> set (service_files s files)"
    then show ?thesis using inv by (rule card_service_files_le)
  next
    assume "\<exists>fn. set (service_files s (snd (InstallFromURL env d u files))) \<subseteq> {fn}"
    then obtain fn where "set (service_files s (snd (InstallFromURL env d u files))) \<subseteq> {fn}" ..
    then show ?thesis by (rule card_subset_singleton)
  qed
qed

lemma InstallFromURL_Inr_named:
  assumes ok: "InstallFromURL env d u files = (Inr p, files')"
  shows "validateURL u = None \<and> (\<exists>fn. extractFilename u = Inr fn \<and> validatePluginFilename fn = None)"
proof (cases "validateURL u")
  case (Some e)
  with ok show ?thesis by (simp add: InstallFromURL_invalid)
next
  case v: None
  show ?thesis
  proof (cases "extractFilename u")
    case (Inl e)
    with ok v show ?thesis by (simp add: InstallFromURL_no_filename)
  next
    case fn: (Inr fn)
    show ?thesis
    proof (cases "validatePluginFilename fn")
      case (Some e)
      with ok v fn show ?thesis by (simp add: InstallFromURL_not_vkp)
    next
      case None
      with v fn show ?thesis by simp
    qed
  qed
qed

lemma InstallFromURL_evicts:
  assumes plain: "list_all plain_name files" and complete: "listing_complete env files"
    and ok: "InstallFromURL env d u files = (Inr p, files')"
    and fn: "extractFilename u = Inr fn"
    and info: "parsePluginInfo fn = Inr info"
  shows "p = filepath_Join [d, fn] \<and>
     set files' = insert fn (set files - set (service_files (ServiceName info) files))"
proof -
  from InstallFromURL_Inr_named [OF ok] fn
  have v: "validateURL u = None" and vf: "validatePluginFilename fn = None" by auto
  note unf = InstallFromURL_named [OF v fn vf]
  obtain infos where f: "findPluginsByService env files (ServiceName info) = Inr infos"
  proof (cases "findPluginsByService env files (ServiceName info)")
    case (Inl e)
    then have "e = PanicSliceBounds"
      using findPluginsByService_Inl [OF Inl] complete by (auto simp: listing_complete_def)
    with ok Inl info show ?thesis by (simp add: unf)
  next
    case (Inr infos)
    then show ?thesis by (rule that)
  qed
  obtain r files1 where ev: "evict env d fn infos files = (r, files1)"
    by (cases "evict env d fn infos files")
  have r: "r = None"
  proof (cases r)
    case (Some e)
    with ok info f ev show ?thesis by (simp add: unf)
  qed simp
  have dl: "download_to env d fn files1 = (Inr p, files')"
    using ok info f ev r by (simp add: unf)
  have names: "Filename ` set infos = set (service_files (ServiceName info) files)"
    using findPluginsByService_Inr [OF f complete] by (metis set_map)
  have "\<forall>p \<in> set infos. plain_name (Filename p)"
    using findPluginsByService_subset [OF f] plain by (auto simp: list_all_iff)
  from evict_None [OF this, of env d fn files files1] ev r names download_to_Inr [OF dl]
  show ?thesis by auto
qed

lemma run_installs_preserves:
  "list_all plain_name files \<Longrightarrow> listings_complete d calls files \<Longrightarrow>
   card (set (service_files s files)) \<le> 1 \<Longrightarrow>
     card (set (service_files s (run_installs d calls files))) \<le> 1"
proof (induction calls arbitrary: files)
  case Nil
  then show ?case by simp
next
  case (Cons c calls)
  obtain env u where c: "c = (env, u)" by (cases c)
  from Cons.prems(2) have complete: "listing_complete env files"
    and rest: "listings_complete d calls (snd (InstallFromURL env d u files))"
    by (simp_all add: c)
  show ?case
    unfolding c run_installs.simps
    by (rule Cons.IH [OF InstallFromURL_plain [OF Cons.prems(1)] rest
          InstallFromURL_preserves [OF Cons.prems(1) complete Cons.prems(3)]])
qed

lemma set_service_files:
  "set (service_files s files) = {f \<in> set files. HasSuffix f ''.vkp'' \<and> has_service s f}"
  by (auto simp: service_files_def)

lemma example_parse_v101:
  "parsePluginInfo ''svc_linux_amd64_v1.0.1.vkp'' =
     Inr \<lparr> ServiceName = ''svc'', Platform = ''linux_amd64'', Version = ''v1.0.1'',
           Filename = ''svc_linux_amd64_v1.0.1.vkp'' \<rparr>"
  by (simp add: parse_eval)

lemma example_parse_v100:
  "parsePluginInfo ''svc_linux_amd64_v1.0.0.vkp'' =
     Inr \<lparr> ServiceName = ''svc'', Platform = ''linux_amd64'', Version = ''v1.0.0'',
           Filename = ''svc_linux_amd64_v1.0.0.vkp'' \<rparr>"
  by (simp add: parse_eval)

lemma example_extract_v101:
  "extractFilename (url_of ''/pkg/svc_linux_amd64_v1.0.1.vkp'') = Inr ''svc_linux_amd64_v1.0.1.vkp''"
  by (simp add: extractFilename_def url_of_def Base_def)

lemma example_validate_v101:
  "validateURL (url_of ''/pkg/svc_linux_amd64_v1.0.1.vkp'') = None \<and>
   validatePluginFilename ''svc_linux_amd64_v1.0.1.vkp'' = None"
  by (simp add: validateURL_def url_of_def validatePluginFilename_def HasSuffix_def)

lemma example_service_files:
  "service_files ''svc'' [''svc_linux_amd64_v1.0.0.vkp''] = [''svc_linux_amd64_v1.0.0.vkp'']"
  by (simp add: service_files_def has_service_def example_parse_v100 HasSuffix_def)

lemma example_plain:
  "plain_name ''svc_linux_amd64_v1.0.0.vkp'' \<and> plain_name ''svc_linux_amd64_v1.0.1.vkp''"
  by (simp add: plain_name_def)

lemma example_local_path:
  "filepath_Join [''plugins/vpks'', ''svc_linux_amd64_v1.0.1.vkp''] =
     ''plugins/vpks/svc_linux_amd64_v1.0.1.vkp''"
  by (simp add: path_eval)

lemma example_install_v101:
  "fst (InstallFromURL env_ok ''plugins/vpks'' (url_of ''/pkg/svc_linux_amd64_v1.0.1.vkp'')
     [''svc_linux_amd64_v1.0.0.vkp'']) = Inr ''plugins/vpks/svc_linux_amd64_v1.0.1.vkp'' \<and>
   snd (InstallFromURL env_ok ''plugins/vpks'' (url_of ''/pkg/svc_linux_amd64_v1.0.1.vkp'')
     [''svc_linux_amd64_v1.0.0.vkp'']) = [''svc_linux_amd64_v1.0.1.vkp'']"
proof -
  have f: "findPluginsByService env_ok [''svc_linux_amd64_v1.0.0.vkp''] ''svc'' =
      Inr [\<lparr> ServiceName = ''svc'', Platform = ''linux_amd64'', Version = ''v1.0.0'',
             Filename = ''svc_linux_amd64_v1.0.0.vkp'' \<rparr>]"
    by (simp add: findPluginsByService_def ListInstalledPlugins_def HasSuffix_def
        example_parse_v100 env_ok_def)
  have r: "RemovePlugin env_ok ''plugins/vpks'' ''svc_linux_amd64_v1.0.0.vkp''
      [''svc_linux_amd64_v1.0.0.vkp''] = (None, [])"
    by (simp add: RemovePlugin_plain example_plain env_ok_def)
  have d: "download env_ok = Downloaded"
    by (simp add: env_ok_def)
  show ?thesis
    unfolding InstallFromURL_named [OF conjunct1 [OF example_validate_v101] example_extract_v101
        conjunct2 [OF example_validate_v101]]
    by (simp add: example_parse_v101 f r d download_to_def downloadFile_def create_file_def
        example_local_path)
qed

lemma example_install_unlisted:
  "fst (InstallFromURL env_unreadable ''plugins/vpks'' (url_of ''/pkg/svc_linux_amd64_v1.0.1.vkp'')
     [''svc_linux_amd64_v1.0.0.vkp'']) = Inr ''plugins/vpks/svc_linux_amd64_v1.0.1.vkp'' \<and>
   set (snd (InstallFromURL env_unreadable ''plugins/vpks'' (url_of ''/pkg/svc_linux_amd64_v1.0.1.vkp'')
     [''svc_linux_amd64_v1.0.0.vkp''])) = {''svc_linux_amd64_v1.0.0.vkp'', ''svc_linux_amd64_v1.0.1.vkp''}"
proof -
  have f: "findPluginsByService env_unreadable [''svc_linux_amd64_v1.0.0.vkp''] ''svc'' = Inr []"
    by (simp add: findPluginsByService_def ListInstalledPlugins_def env_unreadable_def env_ok_def)
  have d: "download env_unreadable = Downloaded"
    by (simp add: env_unreadable_def env_ok_def)
  show ?thesis
    unfolding InstallFromURL_named [OF conjunct1 [OF example_validate_v101] example_extract_v101
        conjunct2 [OF example_validate_v101]]
    by (auto simp: example_parse_v101 f d download_to_def downloadFile_def set_create_file
        example_local_path)
qed

text \<open>
  Claim C1, as stated, fails when the directory cannot be listed: \<open>filepath.Glob\<close>
  ignores the I/O error and reports no entry and no error, so the install finds no
  older version, removes nothing, downloads and succeeds, and the directory holds two
  versions of the service.
\<close>

theorem InstallFromURL_unlisted_counterexample:
  "fst (InstallFromURL env_unreadable ''plugins/vpks'' (url_of ''/pkg/svc_linux_amd64_v1.0.1.vkp'')
          [''svc_linux_amd64_v1.0.0.vkp'']) = Inr ''plugins/vpks/svc_linux_amd64_v1.0.1.vkp'' \<and>
   set (service_files ''svc''
          (snd (InstallFromURL env_unreadable ''plugins/vpks'' (url_of ''/pkg/svc_linux_amd64_v1.0.1.vkp'')
                  [''svc_linux_amd64_v1.0.0.vkp'']))) =
     {''svc_linux_amd64_v1.0.0.vkp'', ''svc_linux_amd64_v1.0.1.vkp''} \<and>
   card (set (service_files ''svc''
          (snd (InstallFromURL env_unreadable ''plugins/vpks'' (url_of ''/pkg/svc_linux_amd64_v1.0.1.vkp'')
                  [''svc_linux_amd64_v1.0.0.vkp''])))) = 2"
proof -
  have s: "set (service_files ''svc''
          (snd (InstallFromURL env_unreadable ''plugins/vpks'' (url_of ''/pkg/svc_linux_amd64_v1.0.1.vkp'')
                  [''svc_linux_amd64_v1.0.0.vkp'']))) =
     {''svc_linux_amd64_v1.0.0.vkp'', ''svc_linux_amd64_v1.0.1.vkp''}"
    unfolding set_service_files conjunct2 [OF example_install_unlisted]
    by (auto simp: has_service_def example_parse_v100 example_parse_v101 HasSuffix_def)
  have "card {''svc_linux_amd64_v1.0.0.vkp'', ''svc_linux_amd64_v1.0.1.vkp''} = 2" by simp
  with s conjunct1 [OF example_install_unlisted] show ?thesis by simp
qed

text \<open>
  Claim C1, amended. As long as every call lists the directory completely
  (\<open>filepath.Glob\<close> accepts the pattern and reports every \<open>.vkp\<close> entry), the install
  directory holds at most one \<open>.vkp\<close> file whose parsed service name is \<open>s\<close>, for every
  service name \<open>s\<close>: the property is kept by every sequence of \<open>InstallFromURL\<close> calls
  (successful or not, so in particular by the successful ones), it holds after every
  sequence that starts from the empty directory, and a successful install of a file
  name that parses to the service \<open>s\<close> returns the path of the new file in the directory
  and leaves the directory with the new file and without any other \<open>.vkp\<close> file of that
  service, every other entry being kept. The entries of a directory have plain names
  (no separator, not \<open>.\<close> or \<open>..\<close>).
\<close>

theorem InstallFromURL_one_version_per_service:
  "(list_all plain_name files \<and> listings_complete vpksDir calls files \<and>
    card (set (service_files s files)) \<le> 1 \<longrightarrow>
      card (set (service_files s (run_installs vpksDir calls files))) \<le> 1) \<and>
   (listings_complete vpksDir calls [] \<longrightarrow>
      card (set (service_files s (run_installs vpksDir calls []))) \<le> 1) \<and>
   (list_all plain_name files \<and> listing_complete env files \<and>
    InstallFromURL env vpksDir pluginURL files = (Inr localPath, files') \<and>
    extractFilename pluginURL = Inr filename \<and>
    parsePluginInfo filename = Inr info \<longrightarrow>
      localPath = filepath_Join [vpksDir, filename] \<and>
      set files' = insert filename (set files - set (service_files (ServiceName info) files)))"
proof (intro conjI impI)
  assume "list_all plain_name files \<and> listings_complete vpksDir calls files \<and>
    card (set (service_files s files)) \<le> 1"
  then show "card (set (service_files s (run_installs vpksDir calls files))) \<le> 1"
    using run_installs_preserves by blast
next
  assume c: "listings_complete vpksDir calls []"
  have "card (set (service_files s [])) \<le> 1" by (simp add: service_files_def)
  with c show "card (set (service_files s (run_installs vpksDir calls []))) \<le> 1"
    using run_installs_preserves [of "[]" vpksDir calls s] by simp
next
  assume a: "list_all plain_name files \<and> listing_complete env files \<and>
    InstallFromURL env vpksDir pluginURL files = (Inr localPath, files') \<and>
    extractFilename pluginURL = Inr filename \<and> parsePluginInfo filename = Inr info"
  then have e: "localPath = filepath_Join [vpksDir, filename] \<and>
      set files' = insert filename (set files - set (service_files (ServiceName info) files))"
    using InstallFromURL_evicts by blast
  from e show "localPath = filepath_Join [vpksDir, filename]" ..
  from e show "set files' = insert filename (set files - set (service_files (ServiceName info) files))" ..
qed

theorem InstallFromURL_one_version_per_service_witness:
  "list_all plain_name [''svc_linux_amd64_v1.0.0.vkp''] \<and>
   listings_complete ''plugins/vpks'' [(env_ok, url_of ''/pkg/svc_linux_amd64_v1.0.1.vkp'')]
     [''svc_linux_amd64_v1.0.0.vkp''] \<and>
   listings_complete ''plugins/vpks'' [(env_ok, url_of ''/pkg/svc_linux_amd64_v1.0.1.vkp'')] [] \<and>
   card (set (service_files ''svc'' [''svc_linux_amd64_v1.0.0.vkp''])) \<le> 1 \<and>
   card (set (service_files ''svc''
     (run_installs ''plugins/vpks'' [(env_ok, url_of ''/pkg/svc_linux_amd64_v1.0.1.vkp'')]
        [''svc_linux_amd64_v1.0.0.vkp'']))) \<le> 1 \<and>
   card (set (service_files ''svc''
     (run_installs ''plugins/vpks'' [(env_ok, url_of ''/pkg/svc_linux_amd64_v1.0.1.vkp'')] []))) \<le> 1 \<and>
   InstallFromURL env_ok ''plugins/vpks'' (url_of ''/pkg/svc_linux_amd64_v1.0.1.vkp'')
     [''svc_linux_amd64_v1.0.0.vkp''] =
     (Inr ''plugins/vpks/svc_linux_amd64_v1.0.1.vkp'', [''svc_linux_amd64_v1.0.1.vkp'']) \<and>
   ''plugins/vpks/svc_linux_amd64_v1.0.1.vkp'' =
     filepath_Join [''plugins/vpks'', ''svc_linux_amd64_v1.0.1.vkp''] \<and>
   set [''svc_linux_amd64_v1.0.1.vkp''] =
     insert ''svc_linux_amd64_v1.0.1.vkp''
       (set [''svc_linux_amd64_v1.0.0.vkp''] - set (service_files ''svc'' [''svc_linux_amd64_v1.0.0.vkp'']))"
proof -
  have p: "list_all plain_name [''svc_linux_amd64_v1.0.0.vkp'']"
    by (simp add: example_plain)
  have l: "listing_complete env_ok [''svc_linux_amd64_v1.0.0.vkp'']" "listing_complete env_ok []"
    by (simp_all add: listing_complete_def env_ok_def)
  then have ls: "listings_complete ''plugins/vpks'' [(env_ok, url_of ''/pkg/svc_linux_amd64_v1.0.1.vkp'')]
      [''svc_linux_amd64_v1.0.0.vkp'']"
    "listings_complete ''plugins/vpks'' [(env_ok, url_of ''/pkg/svc_linux_amd64_v1.0.1.vkp'')] []"
    by simp_all
  have h: "card (set (service_files ''svc'' [''svc_linux_amd64_v1.0.0.vkp''])) \<le> 1"
    by (simp add: example_service_files)
  have i: "InstallFromURL env_ok ''plugins/vpks'' (url_of ''/pkg/svc_linux_amd64_v1.0.1.vkp'')
     [''svc_linux_amd64_v1.0.0.vkp''] =
     (Inr ''plugins/vpks/svc_linux_amd64_v1.0.1.vkp'', [''svc_linux_amd64_v1.0.1.vkp''])"
    using example_install_v101 by (simp add: prod_eq_iff)
  note t = InstallFromURL_one_version_per_service
    [where s = "''svc''" and files = "[''svc_linux_amd64_v1.0.0.vkp'']" and vpksDir = "''plugins/vpks''"
       and calls = "[(env_ok, url_of ''/pkg/svc_linux_amd64_v1.0.1.vkp'')]"
       and env = env_ok and pluginURL = "url_of ''/pkg/svc_linux_amd64_v1.0.1.vkp''"
       and localPath = "''plugins/vpks/svc_linux_amd64_v1.0.1.vkp''"
       and files' = "[''svc_linux_amd64_v1.0.1.vkp'']"
       and filename = "''svc_linux_amd64_v1.0.1.vkp''"
       and info = "\<lparr> ServiceName = ''svc'', Platform = ''linux_amd64'', Version = ''v1.0.1'',
           Filename = ''svc_linux_amd64_v1.0.1.vkp'' \<rparr>"]
  have a: "card (set (service_files ''svc''
     (run_installs ''plugins/vpks'' [(env_ok, url_of ''/pkg/svc_linux_amd64_v1.0.1.vkp'')]
        [''svc_linux_amd64_v1.0.0.vkp'']))) \<le> 1"
    by (rule mp [OF conjunct1 [OF t] conjI [OF p conjI [OF ls(1) h]]])
  have b: "card (set (service_files ''svc''
     (run_installs ''plugins/vpks'' [(env_ok, url_of ''/pkg/svc_linux_amd64_v1.0.1.vkp'')] []))) \<le> 1"
    by (rule mp [OF conjunct1 [OF conjunct2 [OF t]] ls(2)])
  have c: "''plugins/vpks/svc_linux_amd64_v1.0.1.vkp'' =
     filepath_Join [''plugins/vpks'', ''svc_linux_amd64_v1.0.1.vkp''] \<and>
   set [''svc_linux_amd64_v1.0.1.vkp''] =
     insert ''svc_linux_amd64_v1.0.1.vkp''
       (set [''svc_linux_amd64_v1.0.0.vkp''] - set (service_files ''svc'' [''svc_linux_amd64_v1.0.0.vkp'']))"
    using mp [OF conjunct2 [OF conjunct2 [OF t]]
          conjI [OF p conjI [OF l(1) conjI [OF i conjI [OF example_extract_v101 example_parse_v101]]]]]
    by simp
  show ?thesis
    by (intro conjI p ls h a b i conjunct1 [OF c] conjunct2 [OF c])
qed










section \<open>Properties of the rate limiter\<close>





lemma limit_drop_expired [simp]: "limit (drop_expired m now key) = limit m"
  by (simp add: drop_expired_def split: option.splits)

lemma window_drop_expired [simp]: "window (drop_expired m now key) = window m"
  by (simp add: drop_expired_def split: option.splits)

lemma append_now_fields [simp]:
  "limit (append_now i now key m) = limit m" "window (append_now i now key m) = window m"
  by (induction i arbitrary: m) simp_all




lemma AllowN_fields [simp]:
  "limit (snd (AllowN m now key n)) = limit m" "window (snd (AllowN m now key n)) = window m"
  by (simp_all add: AllowN_def Let_def)


subsection \<open>The scripts of the remote backend\<close>


















subsection \<open>The count of recorded requests\<close>






















text \<open>
  Claim C9 asks for a single mutex around every operation of the in-memory limiter.
  \<open>MemoryRateLimiter\<close> has no mutex, and two concurrent calls are not serialized: with
  limit 1, the schedule in which both calls test the limit before either appends
  accepts both requests and records two timestamps, where any serial order accepts one
  and records one.
\<close>

theorem AllowN_unlocked_interleaving:
  "two_calls_interleaved (NewMemoryRateLimiter 1 1000) 5 ''k'' 1 =
     ((True, True), \<lparr> limit = 1, window = 1000, requests = [''k'' \<mapsto> [5, 5]] \<rparr>) \<and>
   fst (Allow (NewMemoryRateLimiter 1 1000) 5 ''k'') = True \<and>
   fst (Allow (snd (Allow (NewMemoryRateLimiter 1 1000) 5 ''k'')) 5 ''k'') = False \<and>
   timestamps (snd (Allow (snd (Allow (NewMemoryRateLimiter 1 1000) 5 ''k'')) 5 ''k'')) ''k'' = [5]"
  by (simp add: two_calls_interleaved_def Allow_def AllowN_def Let_def drop_expired_def
      over_limit_def NewMemoryRateLimiter_def timestamps_def wrap64_def)

section \<open>Properties of the packager and the loader\<close>

lemma package_members:
  "createVKPPackage codec (package_config md) ''build/svc'' ''build'' built_binary =
     (None, built_binary
        (''build/metadata.json'' \<mapsto>
           Bytes (MarshalIndent codec (if APIVersion md = [] then md \<lparr> APIVersion := ''v1'' \<rparr> else md)),
         ''out/svc_linux_amd64_v1.0.0.vkp'' \<mapsto>
           Archive [(''plugin'', TypeReg, Bytes ''binary''),
                    (''metadata.json'', TypeReg,
                     Bytes (MarshalIndent codec (if APIVersion md = [] then md \<lparr> APIVersion := ''v1'' \<rparr> else md)))]))"
  by (simp add: createVKPPackage_def createMetadataFile_def addFileToTar_def package_config_def
      built_binary_def path_eval)

lemma ext_example: "Ext ''out/svc_linux_amd64_v1.0.0.vkp'' = ''.vkp''"
  by (simp add: Ext_def)

lemma base_example: "Base ''out/svc_linux_amd64_v1.0.0.vkp'' = ''svc_linux_amd64_v1.0.0.vkp''"
  by (simp add: Base_def)

text \<open>
  Claim C5 asks that packaging a metadata value and loading the package gives the
  metadata back. For every metadata value and every JSON codec, the package that
  \<open>createVKPPackage\<close> makes from a built binary does not load: the packager writes the
  metadata as the member \<open>metadata.json\<close>, and the loader reads \<open>plugin.json\<close>.
\<close>

theorem package_then_load_fails:
  "fst (createVKPPackage codec (package_config md) ''build/svc'' ''build'' built_binary) = None \<and>
   fst (LoadPlugin codec env (NewVKPLoader ''plugins'')
          (snd (createVKPPackage codec (package_config md) ''build/svc'' ''build'' built_binary))
          ''out/svc_linux_amd64_v1.0.0.vkp'') = Inl ErrReadMetadata"
  unfolding package_members
  by (simp add: LoadPlugin_def ext_example loadVKPPlugin_def base_example extractVKP_def
      readPluginMetadata_def path_eval NewVKPLoader_def built_binary_def)


lemma loadVKPPlugin_Inr:
  assumes "loadVKPPlugin codec l fs path = (Inr p, l', fs')"
  shows "loadedPlugins l' = (loadedPlugins l)(plugin_name p \<mapsto>
           \<lparr> Plugin = p, PluginPath = path,
             ExtractDir = filepath_Join [pluginDir l, ''temp'', Base path @ ''_extracted''] \<rparr>)
         \<and> pluginDir l' = pluginDir l"
proof -
  let ?dir = "filepath_Join [pluginDir l, ''temp'', Base path @ ''_extracted'']"
  obtain r fs1 where ex: "extractVKP path ?dir fs = (r, fs1)"
    by (cases "extractVKP path ?dir fs")
  have r: "r = None"
  proof (cases r)
    case (Some e)
    with assms ex show ?thesis by (simp add: loadVKPPlugin_def Let_def)
  qed simp
  obtain md where md: "readPluginMetadata codec ?dir fs1 = Inr md"
  proof (cases "readPluginMetadata codec ?dir fs1")
    case (Inl e)
    with assms ex r show ?thesis by (simp add: loadVKPPlugin_def Let_def)
  next
    case (Inr md)
    then show ?thesis by (rule that)
  qed
  have bin: "fs1 (filepath_Join [?dir, ''plugin'']) \<noteq> None"
  proof
    assume "fs1 (filepath_Join [?dir, ''plugin'']) = None"
    with assms ex r md show False by (simp add: loadVKPPlugin_def Let_def)
  qed
  from assms ex r md bin show ?thesis
    by (auto simp: loadVKPPlugin_def Let_def)
qed

lemma loadGoPlugin_Inr:
  assumes "loadGoPlugin env l path = (Inr p, l')"
  shows "loadedPlugins l' = (loadedPlugins l)(plugin_name p \<mapsto>
           \<lparr> Plugin = p, PluginPath = path, ExtractDir = [] \<rparr>)
         \<and> pluginDir l' = pluginDir l"
  using assms by (auto simp: loadGoPlugin_def split: option.splits)

lemma LoadPlugin_Inr:
  assumes "LoadPlugin codec env l fs path = (Inr p, l', fs')"
  shows "\<exists>dir. loadedPlugins l' = (loadedPlugins l)(plugin_name p \<mapsto>
           \<lparr> Plugin = p, PluginPath = path, ExtractDir = dir \<rparr>) \<and> pluginDir l' = pluginDir l"
proof (cases "Ext path = ''.vkp''")
  case True
  with assms have "loadVKPPlugin codec l fs path = (Inr p, l', fs')"
    by (simp add: LoadPlugin_def split: if_splits)
  from loadVKPPlugin_Inr [OF this] show ?thesis by blast
next
  case False
  with assms have "loadGoPlugin env l path = (Inr p, l')"
    by (auto simp: LoadPlugin_def split: if_splits prod.splits)
  from loadGoPlugin_Inr [OF this] show ?thesis by blast
qed

lemma loadVKPPlugin_result_independent:
  "pluginDir l2 = pluginDir l1 \<Longrightarrow>
     fst (loadVKPPlugin codec l2 fs path) = fst (loadVKPPlugin codec l1 fs path)"
  by (auto simp: loadVKPPlugin_def Let_def split: prod.splits option.splits sum.splits)

lemma LoadPlugin_result_independent:
  assumes "pluginDir l2 = pluginDir l1"
  shows "fst (LoadPlugin codec env l2 fs path) = fst (LoadPlugin codec env l1 fs path)"
proof -
  have "fst (loadGoPlugin env l2 path) = fst (loadGoPlugin env l1 path)"
    by (simp add: loadGoPlugin_def split: option.splits)
  then show ?thesis
    using loadVKPPlugin_result_independent [OF assms, of codec fs path]
    by (simp add: LoadPlugin_def split_beta)
qed

text \<open>
  Claim C6, amended. If loading \<open>path\<close> succeeds, the plugin is in the loader's map under
  its metadata name, whether or not the name was there before, and the other entries
  are unchanged; and the result of loading (the plugin or the error) does not depend on
  the entries of the map, so the loader reports no name conflict.
\<close>

theorem LoadPlugin_registers_and_replaces:
  "(LoadPlugin codec env l fs path = (Inr p, l', fs') \<longrightarrow>
      (\<exists>dir. loadedPlugins l' (plugin_name p) =
                Some \<lparr> Plugin = p, PluginPath = path, ExtractDir = dir \<rparr>) \<and>
      (\<forall>name. name \<noteq> plugin_name p \<longrightarrow> loadedPlugins l' name = loadedPlugins l name)) \<and>
   fst (LoadPlugin codec env (l \<lparr> loadedPlugins := plugins \<rparr>) fs path) =
     fst (LoadPlugin codec env l fs path)"
proof (intro conjI impI)
  assume a: "LoadPlugin codec env l fs path = (Inr p, l', fs')"
  from LoadPlugin_Inr [OF a] obtain dir where
    d: "loadedPlugins l' = (loadedPlugins l)(plugin_name p \<mapsto>
           \<lparr> Plugin = p, PluginPath = path, ExtractDir = dir \<rparr>)" by blast
  show "\<exists>dir. loadedPlugins l' (plugin_name p) = Some \<lparr> Plugin = p, PluginPath = path, ExtractDir = dir \<rparr>"
    using d by simp
  show "\<forall>name. name \<noteq> plugin_name p \<longrightarrow> loadedPlugins l' name = loadedPlugins l name"
    using d by simp
next
  show "fst (LoadPlugin codec env (l \<lparr> loadedPlugins := plugins \<rparr>) fs path) =
     fst (LoadPlugin codec env l fs path)"
    by (rule LoadPlugin_result_independent) simp
qed

lemmas load_eval = LoadPlugin_def loadVKPPlugin_def extractVKP_def readPluginMetadata_def
  path_eval Ext_def Base_def GetName_def example_codec_def two_packages_def
  NewVKPLoader_def svc_plugin_def svc_entry_def default_metadata_def Let_def
  loader_after_first_def files_after_first_def

lemma load_first:
  "LoadPlugin example_codec failing_os (NewVKPLoader ''plugins'') two_packages
      ''vpks/svc_linux_amd64_v1.0.0.vkp'' =
   (Inr (svc_plugin ''svc_linux_amd64_v1.0.0.vkp''), loader_after_first, files_after_first)"
  by (simp add: load_eval)

lemma load_second:
  "fst (LoadPlugin example_codec failing_os loader_after_first files_after_first
      ''vpks/svc_linux_amd64_v1.0.1.vkp'') = Inr (svc_plugin ''svc_linux_amd64_v1.0.1.vkp'') \<and>
   loadedPlugins (fst (snd (LoadPlugin example_codec failing_os loader_after_first files_after_first
      ''vpks/svc_linux_amd64_v1.0.1.vkp''))) ''svc'' = Some (svc_entry ''svc_linux_amd64_v1.0.1.vkp'')"
  by (simp add: load_eval)

text \<open>
  Claim C6, as stated, fails: loading a second package whose metadata name is already in
  the loader's map succeeds, and the entry of that name is replaced.
\<close>

theorem LoadPlugin_name_conflict_counterexample:
  "LoadPlugin example_codec failing_os (NewVKPLoader ''plugins'') two_packages
      ''vpks/svc_linux_amd64_v1.0.0.vkp'' =
     (Inr (svc_plugin ''svc_linux_amd64_v1.0.0.vkp''), loader_after_first, files_after_first) \<and>
   loadedPlugins loader_after_first ''svc'' = Some (svc_entry ''svc_linux_amd64_v1.0.0.vkp'') \<and>
   plugin_name (svc_plugin ''svc_linux_amd64_v1.0.1.vkp'') = ''svc'' \<and>
   fst (LoadPlugin example_codec failing_os loader_after_first files_after_first
      ''vpks/svc_linux_amd64_v1.0.1.vkp'') = Inr (svc_plugin ''svc_linux_amd64_v1.0.1.vkp'') \<and>
   loadedPlugins (fst (snd (LoadPlugin example_codec failing_os loader_after_first files_after_first
      ''vpks/svc_linux_amd64_v1.0.1.vkp''))) ''svc'' = Some (svc_entry ''svc_linux_amd64_v1.0.1.vkp'') \<and>
   svc_entry ''svc_linux_amd64_v1.0.1.vkp'' \<noteq> svc_entry ''svc_linux_amd64_v1.0.0.vkp''"
proof -
  have a: "loadedPlugins loader_after_first ''svc'' = Some (svc_entry ''svc_linux_amd64_v1.0.0.vkp'')"
    by (simp add: loader_after_first_def)
  have b: "plugin_name (svc_plugin ''svc_linux_amd64_v1.0.1.vkp'') = ''svc''"
    by (simp add: svc_plugin_def GetName_def)
  have c: "svc_entry ''svc_linux_amd64_v1.0.1.vkp'' \<noteq> svc_entry ''svc_linux_amd64_v1.0.0.vkp''"
    by (simp add: svc_entry_def)
  from load_first load_second a b c show ?thesis by simp
qed

theorem LoadPlugin_registers_and_replaces_witness:
  "LoadPlugin example_codec failing_os (NewVKPLoader ''plugins'') two_packages
      ''vpks/svc_linux_amd64_v1.0.0.vkp'' =
     (Inr (svc_plugin ''svc_linux_amd64_v1.0.0.vkp''), loader_after_first, files_after_first) \<and>
   (\<exists>dir. loadedPlugins loader_after_first (plugin_name (svc_plugin ''svc_linux_amd64_v1.0.0.vkp'')) =
            Some \<lparr> Plugin = svc_plugin ''svc_linux_amd64_v1.0.0.vkp'',
                   PluginPath = ''vpks/svc_linux_amd64_v1.0.0.vkp'', ExtractDir = dir \<rparr>) \<and>
   ''iam'' \<noteq> plugin_name (svc_plugin ''svc_linux_amd64_v1.0.0.vkp'') \<and>
   loadedPlugins loader_after_first ''iam'' = loadedPlugins (NewVKPLoader ''plugins'') ''iam''"
proof -
  have n: "''iam'' \<noteq> plugin_name (svc_plugin ''svc_linux_amd64_v1.0.0.vkp'')"
    by (simp add: svc_plugin_def GetName_def)
  from LoadPlugin_registers_and_replaces [of example_codec failing_os "NewVKPLoader ''plugins''"
      two_packages "''vpks/svc_linux_amd64_v1.0.0.vkp''" "svc_plugin ''svc_linux_amd64_v1.0.0.vkp''"
      loader_after_first files_after_first] load_first n
  show ?thesis by blast
qed

text \<open>
  Claim C8, as stated, fails: after a failed start the field \<open>cmd\<close> is not what it was
  before the call. It holds the command that did not start.
\<close>

theorem Initialize_start_failure_counterexample:
  "cmd extracted_plugin = None \<and>
   start failing_os (execPath extracted_plugin) = None \<and>
   fst (Initialize failing_os extracted_plugin) = Some ErrStartFailed \<and>
   cmd (snd (Initialize failing_os extracted_plugin)) =
     Some \<lparr> CmdPath = ''plugins/temp/svc.vkp_extracted/plugin'',
            CmdArgs = [''plugins/temp/svc.vkp_extracted/plugin'', ''--mode=gateway''],
            Process = None \<rparr> \<and>
   cmd (snd (Initialize failing_os extracted_plugin)) \<noteq> cmd extracted_plugin"
  by (simp add: Initialize_def extracted_plugin_def failing_os_def Let_def)

text \<open>
  Claim C8, amended. If the child process does not start, \<open>Initialize\<close> returns the
  start error and the plugin has no process handle: \<open>Health\<close> reports it stopped and
  \<open>stop\<close> does nothing. The field \<open>cmd\<close> holds the command that did not start, with no
  process; the executable path and the metadata are unchanged.
\<close>

theorem Initialize_start_failure:
  "start env (execPath p) = None \<longrightarrow>
     fst (Initialize env p) = Some ErrStartFailed \<and>
     process_handle (snd (Initialize env p)) = None \<and>
     Health env (snd (Initialize env p)) = Stopped \<and>
     stop env (snd (Initialize env p)) = None \<and>
     cmd (snd (Initialize env p)) =
       Some \<lparr> CmdPath = execPath p, CmdArgs = [execPath p, ''--mode=gateway''],
              Process = None \<rparr> \<and>
     execPath (snd (Initialize env p)) = execPath p \<and>
     metadata (snd (Initialize env p)) = metadata p"
  by (simp add: Initialize_def Let_def process_handle_def Health_def stop_def)

theorem Initialize_start_failure_witness:
  "start failing_os (execPath extracted_plugin) = None \<and>
   fst (Initialize failing_os extracted_plugin) = Some ErrStartFailed \<and>
   process_handle (snd (Initialize failing_os extracted_plugin)) = None \<and>
   Health failing_os (snd (Initialize failing_os extracted_plugin)) = Stopped"
proof -
  have h: "start failing_os (execPath extracted_plugin) = None" by (simp add: failing_os_def)
  from Initialize_start_failure [of failing_os extracted_plugin] h show ?thesis by blast
qed

lemma Initialize_started:
  "start env (execPath p) = Some pid \<Longrightarrow>
     fst (Initialize env p) = None \<and> process_handle (snd (Initialize env p)) = Some pid"
  by (simp add: Initialize_def Let_def process_handle_def)

text \<open>
  Claim C10. For a name in the loader's map, \<open>UnloadPlugin\<close> returns no error and
  removes the entry, so that \<open>GetPlugin\<close> reports the name as not present, whatever the
  operating system answers to killing the process and to removing the extraction
  directory; the other entries are unchanged. For a name that is not in the map it
  returns the not-loaded error and changes nothing; it returns no other error.
\<close>

theorem UnloadPlugin_always_removes:
  "(loadedPlugins l name \<noteq> None \<longrightarrow>
      fst (UnloadPlugin env l fs name) = None \<and>
      loadedPlugins (fst (snd (snd (UnloadPlugin env l fs name)))) name = None \<and>
      GetPlugin (fst (snd (snd (UnloadPlugin env l fs name)))) name = (None, False) \<and>
      (\<forall>other. other \<noteq> name \<longrightarrow>
         loadedPlugins (fst (snd (snd (UnloadPlugin env l fs name)))) other = loadedPlugins l other)) \<and>
   (loadedPlugins l name = None \<longrightarrow>
      UnloadPlugin env l fs name = (Some ErrNotLoaded, [], l, fs)) \<and>
   (fst (UnloadPlugin env l fs name) \<noteq> None \<longrightarrow>
      fst (UnloadPlugin env l fs name) = Some ErrNotLoaded \<and> loadedPlugins l name = None)"
  by (cases "loadedPlugins l name")
    (simp_all add: UnloadPlugin_def GetPlugin_def Let_def split_beta)

theorem UnloadPlugin_always_removes_witness:
  "loadedPlugins loader_with_running ''svc'' \<noteq> None \<and>
   stop failing_os running_plugin = Some ErrKillFailed \<and>
   removeall_fails failing_os ''plugins/temp/svc.vkp_extracted'' \<and>
   fst (snd (UnloadPlugin failing_os loader_with_running Map.empty ''svc'')) =
     [WarnStopFailed, WarnCleanupFailed] \<and>
   fst (UnloadPlugin failing_os loader_with_running Map.empty ''svc'') = None \<and>
   GetPlugin (fst (snd (snd (UnloadPlugin failing_os loader_with_running Map.empty ''svc'')))) ''svc'' =
     (None, False) \<and>
   loadedPlugins loader_with_running ''iam'' = None \<and>
   UnloadPlugin failing_os loader_with_running Map.empty ''iam'' =
     (Some ErrNotLoaded, [], loader_with_running, Map.empty)"
proof -
  have a: "loadedPlugins loader_with_running ''svc'' \<noteq> None"
    by (simp add: loader_with_running_def)
  have b: "stop failing_os running_plugin = Some ErrKillFailed"
    by (simp add: stop_def running_plugin_def extracted_plugin_def failing_os_def)
  have c: "removeall_fails failing_os ''plugins/temp/svc.vkp_extracted''"
    by (simp add: failing_os_def)
  have d: "fst (snd (UnloadPlugin failing_os loader_with_running Map.empty ''svc'')) =
     [WarnStopFailed, WarnCleanupFailed]"
    by (simp add: UnloadPlugin_def loader_with_running_def b c Let_def)
  have e: "loadedPlugins loader_with_running ''iam'' = None"
    by (simp add: loader_with_running_def)
  from UnloadPlugin_always_removes [of loader_with_running "''svc''" failing_os Map.empty] a
  have 1: "fst (UnloadPlugin failing_os loader_with_running Map.empty ''svc'') = None \<and>
    GetPlugin (fst (snd (snd (UnloadPlugin failing_os loader_with_running Map.empty ''svc'')))) ''svc'' =
     (None, False)" by blast
  from UnloadPlugin_always_removes [of loader_with_running "''iam''" failing_os Map.empty] e
  have 2: "UnloadPlugin failing_os loader_with_running Map.empty ''iam'' =
     (Some ErrNotLoaded, [], loader_with_running, Map.empty)" by blast
  from a b c d e 1 2 show ?thesis by simp
qed

end
